theory Spec2Isabelle
  imports Main "HOL-Library.Word"
begin

unbundle bit_operations_syntax

section \<open>The fuxx memory latency benchmark (fuxx.cpp)\<close>

text \<open>
  The program is a single C++ file: five global variables, \<open>report\<close>,
  \<open>memoryLatencyRead\<close>, \<open>memoryLatencyWrite\<close> and \<open>main\<close>.  It is modelled
  for an LP64 platform: \<open>size_t\<close>, \<open>unsigned long\<close> and \<open>uint64_t\<close> are 64-bit words
  whose arithmetic wraps around, \<open>uint8_t\<close> is an 8-bit word.
\<close>

type_synonym size_t = "64 word"

type_synonym uint64_t = "64 word"

type_synonym uint8_t = "8 word"

subsection \<open>Errors and effects\<close>

text \<open>
  The source has no error handling of its own.  What can go wrong comes from the
  language and its library: \<open>std::stoul\<close> throws \<open>std::invalid_argument\<close> or
  \<open>std::out_of_range\<close>, \<open>new\<close> throws \<open>std::bad_alloc\<close>, an index outside the
  array is undefined behaviour, and the inner \<open>while\<close> loop may run forever.
  Each is a value of \<open>error\<close>.
\<close>

datatype error = Invalid_Argument | Out_Of_Range | Bad_Alloc | Out_Of_Bounds | Never_Returns

text \<open>
  What is sent to \<open>std::cout\<close>, piece by piece: a string, an unsigned integer
  (printed in decimal by the library), the quotient \<open>(double) totalTime / nrOps\<close>
  (kept as its two operands: floating point is not modelled), and \<open>std::endl\<close>.
\<close>

datatype out = Str string | Num uint64_t | Ratio uint64_t uint64_t | Endl

text \<open>
  The effects of a run in the order they happen: output, \<open>new uint8_t[n]\<close>,
  \<open>delete []\<close>, a call of \<open>timeNow\<close>, and the byte accesses of the two timed loops
  (\<open>Load pos\<close> for \<open>dummy += p[pos]\<close>, \<open>Store pos v\<close> for \<open>p[pos] = v\<close>).
\<close>

datatype event = Print out | New size_t | Delete | Now | Load size_t | Store size_t uint8_t

text \<open>
  The environment of a run: the reading of the clock at the \<open>k\<close>-th call of
  \<open>timeNow\<close> (in nanoseconds), the indeterminate contents of freshly allocated
  memory, and the largest number of bytes \<open>new\<close> hands out.
\<close>

record env =
  clock :: "nat \<Rightarrow> int"
  garbage :: "nat \<Rightarrow> uint8_t"
  avail :: nat

text \<open>
  The global variables (lines 31 to 35), the number of clock readings taken so far
  and the effects so far.
\<close>

record state =
  memUsage :: size_t
  diskUsage :: size_t
  timeFactor :: size_t
  verbose :: bool
  dummy :: uint64_t
  ticks :: nat
  trace :: "event list"

definition initial_state :: state where
  "initial_state =
     \<lparr>memUsage = 0, diskUsage = 0, timeFactor = 100, verbose = False, dummy = 0,
      ticks = 0, trace = []\<rparr>"

text \<open>\<open>std::cout << x1 << x2 ...\<close> appends to the effects.\<close>

definition cout :: "out list \<Rightarrow> state \<Rightarrow> state" where
  "cout xs st = st\<lparr>trace := trace st @ map Print xs\<rparr>"

text \<open>
  \<open>timeNow\<close> (lines 23 to 25) reads the clock; \<open>timeDiff\<close> (lines 27 to 29) is the
  difference of two readings in nanoseconds as a \<open>uint64_t\<close>.
\<close>

definition timeNow :: "env \<Rightarrow> state \<Rightarrow> int \<times> state" where
  "timeNow e st = (clock e (ticks st), st\<lparr>ticks := Suc (ticks st), trace := trace st @ [Now]\<rparr>)"

definition timeDiff :: "int \<Rightarrow> int \<Rightarrow> uint64_t" where
  "timeDiff a b = word_of_int (b - a)"

text \<open>
  \<open>new uint8_t[n]\<close> returns an array of \<open>n\<close> bytes that are not initialised, or throws;
  \<open>delete [] p\<close> releases it.
\<close>

definition new_array :: "env \<Rightarrow> size_t \<Rightarrow> state \<Rightarrow> error + (uint8_t list \<times> state)" where
  "new_array e n st =
     (if unat n \<le> avail e
      then Inr (map (garbage e) [0..<unat n], st\<lparr>trace := trace st @ [New n]\<rparr>)
      else Inl Bad_Alloc)"

definition delete_array :: "state \<Rightarrow> state" where
  "delete_array st = st\<lparr>trace := trace st @ [Delete]\<rparr>"

subsection \<open>Text constants\<close>

definition newline :: string where
  "newline = [CHR 0x0A]"

definition quote :: string where
  "quote = [CHR 0x27]"

definition read_banner :: string where
  "read_banner =
     newline @ ''memoryLatencyRead:'' @ newline @ newline @
     ''This allocates as much memory as allowed and does single byte reads in a'' @ newline @
     ''random access fashion. The result is  the average time it takes to fetch'' @ newline @
     ''a cache line.'' @ newline @ newline"

definition write_banner :: string where
  "write_banner =
     newline @ ''memoryLatencyWrite:'' @ newline @ newline @
     ''This allocates as much memory as allowed and does single byte writes'' @ newline @
     ''in a random access fashion. The result is the average time it takes to'' @ newline @
     ''write a byte.'' @ newline @ newline"

definition usage_text :: string where
  "usage_text =
     newline @ ''Usage: fuxx <memUsageMiB> <diskUsageMiB> [<timeFactor>] '' @ newline @
     ''       where <memUsage> and <diskUsage> are in Mebibytes'' @ newline @
     ''       and timeFactor is in percent of the normal runtime.'' @ newline @ newline"

subsection \<open>report (lines 37 to 43)\<close>

definition report :: "string \<Rightarrow> uint64_t \<Rightarrow> uint64_t \<Rightarrow> state \<Rightarrow> state" where
  "report operation totalTime nrOps st =
     cout [Str (''Time per '' @ quote), Str operation, Str (quote @ '': ''),
           Ratio totalTime nrOps, Str '' nanoseconds'', Endl]
       (cout [Str ''Total Time: '', Num totalTime, Str '' nanoseconds for '',
              Num nrOps, Str '' operations.'', Endl] st)"

subsection \<open>The loops of the two benchmarks\<close>

text \<open>
  \<open>while (pos >= memUsage) { pos -= memUsage; }\<close> (lines 70 to 72 and 107 to 109).
  With \<open>memUsage = 0\<close> the condition never fails, so the loop is a partial function:
  \<open>None\<close> is "does not return".
\<close>

partial_function (option) wrap :: "size_t \<Rightarrow> size_t \<Rightarrow> size_t option" where
  "wrap n pos = (if pos \<ge> n then wrap n (pos - n) else Some pos)"

declare wrap.simps [code]

text \<open>
  \<open>for (size_t i = 0; i < memUsage; ++i) { p[i] = i & 0xff; }\<close> (lines 61 to 63 and
  98 to 100); the assignment truncates \<open>size_t\<close> to \<open>uint8_t\<close>.
\<close>

function init_loop :: "size_t \<Rightarrow> uint8_t list \<Rightarrow> size_t \<Rightarrow> error + uint8_t list" where
  "init_loop n p i =
     (if i < n then
        (if unat i < length p then init_loop n (p[unat i := ucast (i AND 0xff)]) (i + 1)
         else Inl Out_Of_Bounds)
      else Inr p)"
  by pat_completeness auto
termination
proof (relation "measure (\<lambda>(n, p, i). unat n - unat i)")
  show "wf (measure (\<lambda>(n :: size_t, p :: uint8_t list, i :: size_t). unat n - unat i))"
    by simp
next
  fix n i :: size_t and p :: "uint8_t list"
  assume "i < n"
  then have lt: "unat i < unat n" by (simp add: word_less_nat_alt)
  moreover have "unat n < 2 ^ 64" using unsigned_less [of n] by simp
  ultimately have "unat i + 1 < 2 ^ 64" by simp
  then have "unat (i + 1) = Suc (unat i)" by (simp add: unat_word_ariths)
  with lt show "((n, p[unat i := ucast (i AND 0xff)], i + 1), (n, p, i))
      \<in> measure (\<lambda>(n, p, i). unat n - unat i)"
    by simp
qed

declare init_loop.simps [simp del]

text \<open>
  The timed loop of \<open>memoryLatencyRead\<close> (lines 67 to 73), with the loop variables
  \<open>i\<close> and \<open>pos\<close> as arguments.  \<open>dummy\<close> and \<open>memUsage\<close> are globals.
\<close>

function read_loop ::
  "size_t \<Rightarrow> uint8_t list \<Rightarrow> size_t \<Rightarrow> size_t \<Rightarrow> state \<Rightarrow> error + (size_t \<times> state)" where
  "read_loop nrTries p i pos st =
     (if i < nrTries then
        (if unat pos < length p then
           (let st' = st\<lparr>dummy := dummy st + ucast (p ! unat pos),
                          trace := trace st @ [Load pos]\<rparr>
            in case wrap (memUsage st') (pos + 17 * 64) of
                 None \<Rightarrow> Inl Never_Returns
               | Some pos' \<Rightarrow> read_loop nrTries p (i + 1) pos' st')
         else Inl Out_Of_Bounds)
      else Inr (pos, st))"
  by pat_completeness auto
termination
proof (relation "measure (\<lambda>(n, p, i, pos, st). unat n - unat i)")
  show "wf (measure (\<lambda>(n :: size_t, p :: uint8_t list, i :: size_t, pos :: size_t, st :: state).
      unat n - unat i))"
    by simp
next
  fix nrTries i pos pos' :: size_t and p :: "uint8_t list" and st st' :: state
  assume "i < nrTries"
  then have lt: "unat i < unat nrTries" by (simp add: word_less_nat_alt)
  moreover have "unat nrTries < 2 ^ 64" using unsigned_less [of nrTries] by simp
  ultimately have "unat i + 1 < 2 ^ 64" by simp
  then have "unat (i + 1) = Suc (unat i)" by (simp add: unat_word_ariths)
  with lt show "((nrTries, p, i + 1, pos', st'), (nrTries, p, i, pos, st))
      \<in> measure (\<lambda>(n, p, i, pos, st). unat n - unat i)"
    by simp
qed

declare read_loop.simps [simp del]

text \<open>
  The timed loop of \<open>memoryLatencyWrite\<close> (lines 104 to 110).  The stored value is
  \<open>i % 0xff\<close>, truncated to \<open>uint8_t\<close>.
\<close>

function write_loop ::
  "size_t \<Rightarrow> uint8_t list \<Rightarrow> size_t \<Rightarrow> size_t \<Rightarrow> state
     \<Rightarrow> error + (uint8_t list \<times> size_t \<times> state)" where
  "write_loop nrTries p i pos st =
     (if i < nrTries then
        (if unat pos < length p then
           (let p' = p[unat pos := ucast (i mod 0xff)];
                st' = st\<lparr>trace := trace st @ [Store pos (ucast (i mod 0xff))]\<rparr>
            in case wrap (memUsage st') (pos + 17 * 64) of
                 None \<Rightarrow> Inl Never_Returns
               | Some pos' \<Rightarrow> write_loop nrTries p' (i + 1) pos' st')
         else Inl Out_Of_Bounds)
      else Inr (p, pos, st))"
  by pat_completeness auto
termination
proof (relation "measure (\<lambda>(n, p, i, pos, st). unat n - unat i)")
  show "wf (measure (\<lambda>(n :: size_t, p :: uint8_t list, i :: size_t, pos :: size_t, st :: state).
      unat n - unat i))"
    by simp
next
  fix nrTries i pos pos' :: size_t and p p' :: "uint8_t list" and st st' :: state
  assume "i < nrTries"
  then have lt: "unat i < unat nrTries" by (simp add: word_less_nat_alt)
  moreover have "unat nrTries < 2 ^ 64" using unsigned_less [of nrTries] by simp
  ultimately have "unat i + 1 < 2 ^ 64" by simp
  then have "unat (i + 1) = Suc (unat i)" by (simp add: unat_word_ariths)
  with lt show "((nrTries, p', i + 1, pos', st'), (nrTries, p, i, pos, st))
      \<in> measure (\<lambda>(n, p, i, pos, st). unat n - unat i)"
    by simp
qed

declare write_loop.simps [simp del]

subsection \<open>memoryLatencyRead (lines 47 to 80) and memoryLatencyWrite (lines 84 to 117)\<close>

definition memoryLatencyRead :: "env \<Rightarrow> state \<Rightarrow> error + state" where
  "memoryLatencyRead e st0 =
     (let st1 = cout [Str read_banner] st0 in
      case new_array e (memUsage st1) st1 of
        Inl x \<Rightarrow> Inl x
      | Inr (p, st2) \<Rightarrow>
          (let pos = 0;
               nrTries = 300000000 * timeFactor st2 div 100
           in case init_loop (memUsage st2) p 0 of
                Inl x \<Rightarrow> Inl x
              | Inr p1 \<Rightarrow>
                  (let (start, st3) = timeNow e st2
                   in case read_loop nrTries p1 0 pos st3 of
                        Inl x \<Rightarrow> Inl x
                      | Inr (pos', st4) \<Rightarrow>
                          (let (end', st5) = timeNow e st4;
                               st6 = delete_array st5
                           in Inr (report ''single byte read'' (timeDiff start end') nrTries
                                     st6)))))"

definition memoryLatencyWrite :: "env \<Rightarrow> state \<Rightarrow> error + state" where
  "memoryLatencyWrite e st0 =
     (let st1 = cout [Str write_banner] st0 in
      case new_array e (memUsage st1) st1 of
        Inl x \<Rightarrow> Inl x
      | Inr (p, st2) \<Rightarrow>
          (let pos = 0;
               nrTries = 300000000 * timeFactor st2 div 100
           in case init_loop (memUsage st2) p 0 of
                Inl x \<Rightarrow> Inl x
              | Inr p1 \<Rightarrow>
                  (let (start, st3) = timeNow e st2
                   in case write_loop nrTries p1 0 pos st3 of
                        Inl x \<Rightarrow> Inl x
                      | Inr (p2, pos', st4) \<Rightarrow>
                          (let (end', st5) = timeNow e st4;
                               st6 = delete_array st5
                           in Inr (report ''single byte write'' (timeDiff start end') nrTries
                                     st6)))))"

subsection \<open>std::stoul\<close>

text \<open>
  \<open>std::stoul (s)\<close> in base 10, as \<open>strtoul\<close> reads it: leading white space is
  skipped, one sign is optional, the longest run of digits is the number and what
  follows is ignored.  No digit throws \<open>std::invalid_argument\<close>, a number above
  \<open>ULONG_MAX = 2^64 - 1\<close> throws \<open>std::out_of_range\<close>, and a minus sign negates the
  number as an \<open>unsigned long\<close>.
\<close>

definition isspace :: "char \<Rightarrow> bool" where
  "isspace c \<longleftrightarrow> c \<in> set [CHR '' '', CHR 0x09, CHR 0x0A, CHR 0x0B, CHR 0x0C, CHR 0x0D]"

definition isdigit :: "char \<Rightarrow> bool" where
  "isdigit c \<longleftrightarrow> (48 :: nat) \<le> of_char c \<and> of_char c \<le> (57 :: nat)"

definition digits_value :: "string \<Rightarrow> nat" where
  "digits_value ds = foldl (\<lambda>a c. 10 * a + (of_char c - 48)) 0 ds"

definition stoul :: "string \<Rightarrow> error + size_t" where
  "stoul s =
     (let s1 = dropWhile isspace s;
          neg = (s1 \<noteq> [] \<and> hd s1 = CHR ''-'');
          s2 = (if s1 \<noteq> [] \<and> (hd s1 = CHR ''-'' \<or> hd s1 = CHR ''+'') then tl s1 else s1);
          ds = takeWhile isdigit s2
      in if ds = [] then Inl Invalid_Argument
         else if digits_value ds \<ge> 2 ^ 64 then Inl Out_Of_Range
         else Inr (if neg then - word_of_nat (digits_value ds) else word_of_nat (digits_value ds)))"

subsection \<open>main (lines 121 to 156)\<close>

text \<open>
  Lines 131 to 149 of \<open>main\<close>: the arguments are parsed, clamped, printed and
  converted to bytes.  \<open>argv\<close> is the argument vector with the program name at
  index 0, \<open>argc\<close> its length.
\<close>

definition configure :: "string list \<Rightarrow> state \<Rightarrow> error + state" where
  "configure argv st0 =
     (case stoul (argv ! 1) of
        Inl x \<Rightarrow> Inl x
      | Inr v1 \<Rightarrow>
          (let st1 = st0\<lparr>memUsage := v1\<rparr>;
               st2 = st1\<lparr>memUsage := (if memUsage st1 > 0 then memUsage st1 else 128)\<rparr>;
               st3 = st2\<lparr>memUsage :=
                       (if memUsage st2 < 1024 * 1024 then memUsage st2 else 1024)\<rparr>;
               st4 = cout [Str ''Memory usage in MiB: '', Num (memUsage st3), Endl] st3
           in case stoul (argv ! 2) of
                Inl x \<Rightarrow> Inl x
              | Inr v2 \<Rightarrow>
                  (let st5 = st4\<lparr>diskUsage := v2\<rparr>;
                       st6 = st5\<lparr>diskUsage :=
                               (if diskUsage st5 \<ge> 16 then diskUsage st5 else 16)\<rparr>;
                       st7 = st6\<lparr>diskUsage :=
                               (if diskUsage st6 < 1024 * 1024 then diskUsage st6 else 1024)\<rparr>;
                       st8 = cout [Str ''Disk   usage in MiB: '', Num (diskUsage st7), Endl] st7;
                       st9 = st8\<lparr>memUsage := memUsage st8 * (1024 * 1024)\<rparr>;
                       st10 = st9\<lparr>diskUsage := diskUsage st9 * (1024 * 1024)\<rparr>
                   in if int (length argv) \<ge> 4 then
                        (case stoul (argv ! 3) of
                           Inl x \<Rightarrow> Inl x
                         | Inr v3 \<Rightarrow>
                             (let st11 = st10\<lparr>timeFactor := v3\<rparr>;
                                  st12 = st11\<lparr>timeFactor :=
                                           (if timeFactor st11 > 0 then timeFactor st11 else 100)\<rparr>;
                                  st13 = st12\<lparr>timeFactor :=
                                           (if timeFactor st12 < 1000 then timeFactor st12
                                            else 100)\<rparr>
                              in Inr (cout [Str ''Time factor        : '', Num (timeFactor st13),
                                            Str ''%'', Endl] st13)))
                      else Inr st10)))"

text \<open>
  \<open>main\<close> returns the exit status and the final state, or the error that ends the
  process.  Of a run that ends with an error the model keeps the error only, not the
  effects before it.
\<close>

definition main :: "env \<Rightarrow> string list \<Rightarrow> error + (int \<times> state)" where
  "main e argv =
     (let argc = int (length argv) in
      if argc < 3 then Inr (0, cout [Str usage_text] initial_state)
      else
        case configure argv initial_state of
          Inl x \<Rightarrow> Inl x
        | Inr st1 \<Rightarrow>
            (case memoryLatencyRead e st1 of
               Inl x \<Rightarrow> Inl x
             | Inr st2 \<Rightarrow>
                 (case memoryLatencyWrite e st2 of
                    Inl x \<Rightarrow> Inl x
                  | Inr st3 \<Rightarrow>
                      Inr (0, cout [Str (newline @ ''Please ignore: ''), Num (dummy st3), Endl]
                                st3))))"

section \<open>Closed forms\<close>

text \<open>
  The definitions of this section are not code of the program.  They name what the
  loops are proved to compute, so that the theorems below can say it.
\<close>

text \<open>One pass of lines 69 to 72 with true modular reduction on 64-bit words.\<close>

definition next_pos :: "size_t \<Rightarrow> size_t \<Rightarrow> size_t" where
  "next_pos n pos = (pos + 17 * 64) mod n"

definition cursor_from :: "size_t \<Rightarrow> size_t \<Rightarrow> nat \<Rightarrow> size_t" where
  "cursor_from n pos k = (next_pos n ^^ k) pos"

text \<open>The buffer after the initialisation loop: cell \<open>i\<close> holds \<open>i mod 256\<close>.\<close>

definition pattern :: "size_t \<Rightarrow> uint8_t list" where
  "pattern n = map of_nat [0..<unat n]"

definition nr_tries :: "size_t \<Rightarrow> size_t" where
  "nr_tries tf = 300000000 * tf div 100"

definition loads :: "size_t \<Rightarrow> nat \<Rightarrow> event list" where
  "loads n k = map (\<lambda>j. Load (cursor_from n 0 j)) [0..<k]"

definition stores :: "size_t \<Rightarrow> nat \<Rightarrow> event list" where
  "stores n k = map (\<lambda>j. Store (cursor_from n 0 j) (ucast ((of_nat j :: size_t) mod 0xff))) [0..<k]"

definition read_sum :: "size_t \<Rightarrow> nat \<Rightarrow> uint64_t" where
  "read_sum n k = (\<Sum>j < k. ucast (pattern n ! unat (cursor_from n 0 j)))"

definition report_events :: "string \<Rightarrow> uint64_t \<Rightarrow> uint64_t \<Rightarrow> event list" where
  "report_events operation totalTime nrOps =
     map Print
       [Str ''Total Time: '', Num totalTime, Str '' nanoseconds for '', Num nrOps,
        Str '' operations.'', Endl,
        Str (''Time per '' @ quote), Str operation, Str (quote @ '': ''),
        Ratio totalTime nrOps, Str '' nanoseconds'', Endl]"

definition read_events :: "env \<Rightarrow> size_t \<Rightarrow> size_t \<Rightarrow> nat \<Rightarrow> event list" where
  "read_events e n tf t =
     [Print (Str read_banner), New n, Now] @ loads n (unat (nr_tries tf)) @ [Now, Delete] @
     report_events ''single byte read'' (timeDiff (clock e t) (clock e (Suc t))) (nr_tries tf)"

definition write_events :: "env \<Rightarrow> size_t \<Rightarrow> size_t \<Rightarrow> nat \<Rightarrow> event list" where
  "write_events e n tf t =
     [Print (Str write_banner), New n, Now] @ stores n (unat (nr_tries tf)) @ [Now, Delete] @
     report_events ''single byte write'' (timeDiff (clock e t) (clock e (Suc t))) (nr_tries tf)"

text \<open>What lines 131 to 149 make of the parsed arguments (sizes in MiB, time in percent).\<close>

definition resolved_mem :: "size_t \<Rightarrow> size_t" where
  "resolved_mem m = (if m = 0 then 128 else if m < 1048576 then m else 1024)"

definition resolved_disk :: "size_t \<Rightarrow> size_t" where
  "resolved_disk d = (if d < 16 then 16 else if d < 1048576 then d else 1024)"

definition resolved_tf :: "size_t \<Rightarrow> size_t" where
  "resolved_tf t = (if t = 0 then 100 else if t < 1000 then t else 100)"

definition config_events :: "size_t \<Rightarrow> size_t \<Rightarrow> event list" where
  "config_events m d =
     map Print [Str ''Memory usage in MiB: '', Num (resolved_mem m), Endl,
                Str ''Disk   usage in MiB: '', Num (resolved_disk d), Endl]"

definition tf_events :: "size_t \<Rightarrow> event list" where
  "tf_events t = map Print [Str ''Time factor        : '', Num (resolved_tf t), Str ''%'', Endl]"

text \<open>Classifying effects.\<close>

fun is_Load :: "event \<Rightarrow> bool" where
  "is_Load (Load pos) = True"
| "is_Load _ = False"

fun is_Store :: "event \<Rightarrow> bool" where
  "is_Store (Store pos v) = True"
| "is_Store _ = False"

fun is_Print :: "event \<Rightarrow> bool" where
  "is_Print (Print x) = True"
| "is_Print _ = False"

definition final_events :: "uint64_t \<Rightarrow> event list" where
  "final_events d = map Print [Str (newline @ ''Please ignore: ''), Num d, Endl]"

text \<open>An environment for the worked examples: \<open>new\<close> hands out up to \<open>a\<close> bytes.\<close>

definition example_env :: "nat \<Rightarrow> env" where
  "example_env a = \<lparr>clock = (\<lambda>k. 1000 * int k), garbage = (\<lambda>i. 0), avail = a\<rparr>"

definition example_argv :: "string list" where
  "example_argv = [''fuxx'', ''64'', ''16'', ''10'']"

definition example_config :: state where
  "example_config =
     initial_state\<lparr>memUsage := 67108864, diskUsage := 16777216, timeFactor := 10,
       trace := config_events 64 16 @ tf_events 10\<rparr>"

definition run_events :: "env \<Rightarrow> size_t \<Rightarrow> size_t \<Rightarrow> event list" where
  "run_events e n tf =
     read_events e n tf 0 @ write_events e n tf 2 @ final_events (read_sum n (unat (nr_tries tf)))"

definition example_final :: state where
  "example_final =
     example_config\<lparr>dummy := read_sum 67108864 30000000, ticks := 4,
       trace := trace example_config @ run_events (example_env 67108864) 67108864 10\<rparr>"

section \<open>Properties of the model\<close>

subsection \<open>The wrap-around loop\<close>

text \<open>
  The loop \<open>while (pos >= memUsage) pos -= memUsage\<close> returns \<open>pos mod memUsage\<close> when
  \<open>memUsage\<close> is not 0, and does not return when it is 0.
\<close>

lemma sub_mod_word: "n \<le> pos \<Longrightarrow> (pos - n) mod n = pos mod n" for n pos :: size_t
proof -
  assume le: "n \<le> pos"
  then have "unat (pos - n) = unat pos - unat n" by (simp add: unat_sub)
  moreover have "unat n \<le> unat pos" using le by (simp add: word_le_nat_alt)
  ultimately have "unat ((pos - n) mod n) = unat (pos mod n)"
    by (simp add: unat_mod le_mod_geq)
  then show ?thesis by (simp add: word_unat_eq_iff)
qed

lemma wrap_mod: "0 < n \<Longrightarrow> wrap n pos = Some (pos mod n)"
proof (induction "unat pos" arbitrary: pos rule: less_induct)
  case less
  show ?case
  proof (cases "n \<le> pos")
    case True
    have "unat n \<le> unat pos" using True by (simp add: word_le_nat_alt)
    moreover have "0 < unat n" using less.prems by (simp add: word_less_nat_alt)
    moreover have "unat (pos - n) = unat pos - unat n" using True by (simp add: unat_sub)
    ultimately have "unat (pos - n) < unat pos" by simp
    then have "wrap n (pos - n) = Some ((pos - n) mod n)" using less by blast
    then show ?thesis using True by (subst wrap.simps) (simp add: sub_mod_word)
  next
    case False
    then have "pos < n" by simp
    then have "pos mod n = pos" by (simp add: word_mod_less_divisor mod_word_less)
    with False show ?thesis by (subst wrap.simps) simp
  qed
qed

lemma wrap_Some_nonzero:
  assumes "wrap n pos = Some y"
  shows "n \<noteq> 0"
  by (rule wrap.raw_induct [where P = "\<lambda>n pos y. n \<noteq> 0", OF _ assms])
     (auto split: if_splits)

lemma wrap_zero: "wrap 0 pos = None"
  using wrap_Some_nonzero [of 0 pos] by (cases "wrap 0 pos") auto

subsection \<open>The cursor\<close>

text \<open>
  The cursor after \<open>k\<close> steps.  It stays below the buffer size, and it is
  \<open>(1088 * k) mod n\<close> as long as the 64-bit addition \<open>pos + 1088\<close> has not wrapped around:
  always for a size up to \<open>2^64 - 1088\<close>, and for \<open>1088 * k < 2^64\<close> for any size.
\<close>

lemma next_pos_less: "0 < n \<Longrightarrow> next_pos n pos < n"
  by (simp add: next_pos_def word_mod_less_divisor)

lemma cursor_from_0: "cursor_from n pos 0 = pos"
  by (simp add: cursor_from_def)

lemma cursor_from_Suc: "cursor_from n pos (Suc k) = next_pos n (cursor_from n pos k)"
  by (simp add: cursor_from_def)

lemma cursor_from_shift: "cursor_from n (next_pos n pos) k = cursor_from n pos (Suc k)"
  by (simp add: cursor_from_def funpow_swap1)

lemma cursor_from_less: "0 < n \<Longrightarrow> pos < n \<Longrightarrow> cursor_from n pos k < n"
  by (cases k) (simp_all add: cursor_from_def next_pos_less)

lemma unat_next_pos:
  "0 < n \<Longrightarrow> unat pos + 1088 < 2 ^ 64 \<Longrightarrow> unat (next_pos n pos) = (unat pos + 1088) mod unat n"
  by (simp add: next_pos_def unat_mod unat_word_ariths)

lemma unat_cursor_from_0:
  "0 < n \<Longrightarrow> unat n + 1088 \<le> 2 ^ 64 \<or> 1088 * k < 2 ^ 64 \<Longrightarrow>
   unat (cursor_from n 0 k) = (1088 * k) mod unat n"
proof (induction k)
  case 0
  then show ?case by (simp add: cursor_from_0)
next
  case (Suc k)
  let ?c = "cursor_from n 0 k"
  have ih: "unat ?c = (1088 * k) mod unat n" using Suc by auto
  have n0: "0 < unat n" using Suc.prems(1) by (simp add: word_less_nat_alt)
  have "unat ?c < unat n" using ih n0 by simp
  moreover have "unat ?c \<le> 1088 * k" using ih by simp
  ultimately have "unat ?c + 1088 < 2 ^ 64" using Suc.prems(2) by auto
  then have "unat (next_pos n ?c) = (unat ?c + 1088) mod unat n"
    using Suc.prems(1) by (rule unat_next_pos [rotated])
  also have "\<dots> = (1088 * Suc k) mod unat n"
    unfolding ih by (simp add: mod_add_left_eq mod_add_right_eq algebra_simps)
  finally show ?case by (simp add: cursor_from_def)
qed

lemma cursor_of_nat:
  "0 < n \<Longrightarrow> unat n + 1088 \<le> 2 ^ 64 \<or> 1088 * k < 2 ^ 64 \<Longrightarrow>
   cursor_from n 0 k = of_nat ((1088 * k) mod unat n)"
proof -
  assume "0 < n" and "unat n + 1088 \<le> 2 ^ 64 \<or> 1088 * k < 2 ^ 64"
  then have "unat (cursor_from n 0 k) = (1088 * k) mod unat n" by (rule unat_cursor_from_0)
  moreover have "cursor_from n 0 k = of_nat (unat (cursor_from n 0 k))" by simp
  ultimately show ?thesis by simp
qed

lemma one_le_word: "1 \<le> n \<longleftrightarrow> 0 < n" for n :: size_t
  by (simp add: word_le_nat_alt word_less_nat_alt Suc_le_eq)

subsection \<open>The initialisation loop\<close>

text \<open>
  Started at \<open>i = 0\<close> on a buffer of \<open>n\<close> bytes, the loop returns the buffer with
  \<open>i mod 256\<close> in cell \<open>i\<close>, whatever the buffer held before.
\<close>

lemma ucast_and_ff: "(ucast (i AND 0xff) :: uint8_t) = of_nat (unat i)" for i :: size_t
proof -
  have m: "(0xff :: size_t) = mask 8" by (simp add: mask_eq_exp_minus_1)
  have "(ucast (i AND mask 8) :: uint8_t) = ucast i"
    by (rule bit_word_eqI) (auto simp: bit_simps)
  then show ?thesis unfolding m by simp
qed

lemma unat_succ: "i < n \<Longrightarrow> unat (i + 1) = Suc (unat i)" for i n :: size_t
proof -
  assume "i < n"
  then have "unat i < unat n" by (simp add: word_less_nat_alt)
  moreover have "unat n < 2 ^ 64" using unsigned_less [of n] by simp
  ultimately have "unat i + 1 < 2 ^ 64" by simp
  then show ?thesis by (simp add: unat_word_ariths)
qed

lemma init_loop_run:
  "length p = unat n \<Longrightarrow> i \<le> n \<Longrightarrow>
   init_loop n p i = Inr (take (unat i) p @ map of_nat [unat i..<unat n])"
proof (induction "unat n - unat i" arbitrary: i p)
  case 0
  then have "\<not> i < n" by (simp add: word_less_nat_alt word_le_nat_alt)
  moreover have "unat i = unat n" using 0 by (simp add: word_le_nat_alt)
  ultimately show ?case using 0 by (subst init_loop.simps) simp
next
  case (Suc k)
  then have lt: "i < n" by (simp add: word_less_nat_alt)
  then have ui: "unat i < unat n" by (simp add: word_less_nat_alt)
  have "unat n < 2 ^ 64" using unsigned_less [of n] by simp
  with ui have "unat i + 1 < 2 ^ 64" by simp
  then have suc: "unat (i + 1) = Suc (unat i)" by (simp add: unat_word_ariths)
  have le: "i + 1 \<le> n" using lt by (rule inc_le)
  let ?p = "p[unat i := ucast (i AND 0xff)]"
  have "init_loop n ?p (i + 1) = Inr (take (unat (i + 1)) ?p @ map of_nat [unat (i + 1)..<unat n])"
    using Suc.hyps(2) Suc.prems suc le by (intro Suc.hyps(1)) simp_all
  moreover have "take (Suc (unat i)) ?p = take (unat i) p @ [of_nat (unat i)]"
    using ui Suc.prems(1) by (simp add: take_Suc_conv_app_nth ucast_and_ff)
  moreover have "[unat i..<unat n] = unat i # [Suc (unat i)..<unat n]"
    using ui by (simp add: upt_conv_Cons)
  ultimately show ?case using lt ui Suc.prems(1) suc
    by (subst init_loop.simps) simp
qed

lemma init_loop_fresh: "length p = unat n \<Longrightarrow> init_loop n p 0 = Inr (pattern n)"
  using init_loop_run [of p n 0] by (simp add: pattern_def)

lemma init_loop_length:
  "init_loop n p i = Inr p' \<Longrightarrow> length p' = length p"
proof (induction n p i rule: init_loop.induct)
  case (1 n p i)
  then show ?case
    by (subst (asm) (2) init_loop.simps) (auto split: if_splits)
qed

lemma length_pattern: "length (pattern n) = unat n"
  by (simp add: pattern_def)

lemma pattern_nth: "i < unat n \<Longrightarrow> unat (pattern n ! i) = i mod 256"
  by (simp add: pattern_def unat_of_nat)

lemma pattern_nth_word: "i < unat n \<Longrightarrow> pattern n ! i = of_nat i"
  by (simp add: pattern_def)

subsection \<open>The timed loops\<close>

text \<open>
  What the two timed loops return, for every size \<open>memUsage > 0\<close>, in terms of the
  cursor.
\<close>

lemma upt_0_Suc_shift: "[0..<Suc k] = 0 # map Suc [0..<k]"
  by (simp add: upt_conv_Cons map_Suc_upt del: upt_Suc)

lemma read_loop_run:
  "0 < memUsage st \<Longrightarrow> length p = unat (memUsage st) \<Longrightarrow> pos < memUsage st \<Longrightarrow>
   i \<le> nrTries \<Longrightarrow>
   read_loop nrTries p i pos st =
     Inr (cursor_from (memUsage st) pos (unat nrTries - unat i),
          st\<lparr>dummy := dummy st +
                  (\<Sum>j < unat nrTries - unat i. ucast (p ! unat (cursor_from (memUsage st) pos j))),
             trace := trace st @
                  map (\<lambda>j. Load (cursor_from (memUsage st) pos j)) [0..<unat nrTries - unat i]\<rparr>)"
proof (induction "unat nrTries - unat i" arbitrary: i pos st)
  case 0
  then have "\<not> i < nrTries" by (simp add: word_less_nat_alt word_le_nat_alt)
  then show ?case using 0 by (subst read_loop.simps) (simp add: cursor_from_0)
next
  case (Suc k)
  let ?n = "memUsage st"
  let ?st = "st\<lparr>dummy := dummy st + ucast (p ! unat pos), trace := trace st @ [Load pos]\<rparr>"
  have lt: "i < nrTries" using Suc.hyps(2) by (simp add: word_less_nat_alt)
  have suc: "unat (i + 1) = Suc (unat i)" using lt by (rule unat_succ)
  have k: "unat nrTries - unat i = Suc k" "unat nrTries - unat (i + 1) = k"
    using Suc.hyps(2) suc by simp_all
  have inb: "unat pos < length p" using Suc.prems by (simp add: word_less_nat_alt)
  have w: "wrap (memUsage ?st) (pos + 17 * 64) = Some (next_pos ?n pos)"
    using Suc.prems(1) by (simp add: wrap_mod next_pos_def)
  have ih: "read_loop nrTries p (i + 1) (next_pos ?n pos) ?st =
     Inr (cursor_from ?n (next_pos ?n pos) k,
          ?st\<lparr>dummy := dummy ?st +
                  (\<Sum>j < k. ucast (p ! unat (cursor_from ?n (next_pos ?n pos) j))),
             trace := trace ?st @ map (\<lambda>j. Load (cursor_from ?n (next_pos ?n pos) j)) [0..<k]\<rparr>)"
    using Suc.hyps(1) [of "i + 1" ?st "next_pos ?n pos"] Suc.prems k lt
    by (simp add: next_pos_less inc_le)
  have step: "read_loop nrTries p i pos st = read_loop nrTries p (i + 1) (next_pos ?n pos) ?st"
    using lt inb w by (subst read_loop.simps) (simp add: Let_def)
  have sum: "(\<Sum>j < Suc k. (ucast (p ! unat (cursor_from ?n pos j)) :: uint64_t)) =
        ucast (p ! unat pos) + (\<Sum>j < k. ucast (p ! unat (cursor_from ?n (next_pos ?n pos) j)))"
    by (simp add: sum.lessThan_Suc_shift cursor_from_0 cursor_from_shift del: sum.lessThan_Suc)
  have tr: "map (\<lambda>j. Load (cursor_from ?n pos j)) [0..<Suc k] =
        Load pos # map (\<lambda>j. Load (cursor_from ?n (next_pos ?n pos) j)) [0..<k]"
    by (simp add: upt_0_Suc_shift cursor_from_0 cursor_from_shift comp_def del: upt_Suc)
  show ?case
    unfolding k step ih sum tr by (simp add: cursor_from_shift add.assoc)
qed

lemma length_fold_update:
  "length (fold (\<lambda>j q. q[f j := g j]) js p) = length p"
  by (induction js arbitrary: p) simp_all

lemma write_loop_run:
  "0 < memUsage st \<Longrightarrow> length p = unat (memUsage st) \<Longrightarrow> pos < memUsage st \<Longrightarrow>
   i \<le> nrTries \<Longrightarrow>
   write_loop nrTries p i pos st =
     Inr (fold (\<lambda>j q. q[unat (cursor_from (memUsage st) pos j) := ucast ((i + of_nat j) mod 0xff)])
            [0..<unat nrTries - unat i] p,
          cursor_from (memUsage st) pos (unat nrTries - unat i),
          st\<lparr>trace := trace st @
                  map (\<lambda>j. Store (cursor_from (memUsage st) pos j) (ucast ((i + of_nat j) mod 0xff)))
                    [0..<unat nrTries - unat i]\<rparr>)"
proof (induction "unat nrTries - unat i" arbitrary: i pos st p)
  case 0
  then have "\<not> i < nrTries" by (simp add: word_less_nat_alt word_le_nat_alt)
  then show ?case using 0 by (subst write_loop.simps) (simp add: cursor_from_0)
next
  case (Suc k)
  let ?n = "memUsage st"
  let ?v = "ucast (i mod 0xff) :: uint8_t"
  let ?p = "p[unat pos := ?v]"
  let ?st = "st\<lparr>trace := trace st @ [Store pos ?v]\<rparr>"
  have lt: "i < nrTries" using Suc.hyps(2) by (simp add: word_less_nat_alt)
  have suc: "unat (i + 1) = Suc (unat i)" using lt by (rule unat_succ)
  have k: "unat nrTries - unat i = Suc k" "unat nrTries - unat (i + 1) = k"
    using Suc.hyps(2) suc by simp_all
  have inb: "unat pos < length p" using Suc.prems by (simp add: word_less_nat_alt)
  have w: "wrap (memUsage ?st) (pos + 17 * 64) = Some (next_pos ?n pos)"
    using Suc.prems(1) by (simp add: wrap_mod next_pos_def)
  have ih: "write_loop nrTries ?p (i + 1) (next_pos ?n pos) ?st =
     Inr (fold (\<lambda>j q. q[unat (cursor_from ?n (next_pos ?n pos) j) := ucast ((i + 1 + of_nat j) mod 0xff)])
            [0..<k] ?p,
          cursor_from ?n (next_pos ?n pos) k,
          ?st\<lparr>trace := trace ?st @
                  map (\<lambda>j. Store (cursor_from ?n (next_pos ?n pos) j) (ucast ((i + 1 + of_nat j) mod 0xff)))
                    [0..<k]\<rparr>)"
    using Suc.hyps(1) [of "i + 1" ?st ?p "next_pos ?n pos"] Suc.prems k lt
    by (simp add: next_pos_less inc_le)
  have step: "write_loop nrTries p i pos st = write_loop nrTries ?p (i + 1) (next_pos ?n pos) ?st"
    using lt inb w by (subst write_loop.simps) (simp add: Let_def)
  have fold: "fold (\<lambda>j q. q[unat (cursor_from ?n pos j) := ucast ((i + of_nat j) mod 0xff)]) [0..<Suc k] p =
        fold (\<lambda>j q. q[unat (cursor_from ?n (next_pos ?n pos) j) := ucast ((i + 1 + of_nat j) mod 0xff)])
          [0..<k] ?p"
    by (simp add: upt_0_Suc_shift fold_map cursor_from_0 cursor_from_shift comp_def add.assoc
          del: upt_Suc)
  have tr: "map (\<lambda>j. Store (cursor_from ?n pos j) (ucast ((i + of_nat j) mod 0xff))) [0..<Suc k] =
        Store pos ?v #
        map (\<lambda>j. Store (cursor_from ?n (next_pos ?n pos) j) (ucast ((i + 1 + of_nat j) mod 0xff))) [0..<k]"
    by (simp add: upt_0_Suc_shift cursor_from_0 cursor_from_shift comp_def add.assoc del: upt_Suc)
  show ?case
    unfolding k step ih fold tr by (simp add: cursor_from_shift)
qed

lemma read_loop_fresh:
  "memUsage st = n \<Longrightarrow> 0 < n \<Longrightarrow>
   read_loop nrTries (pattern n) 0 0 st =
     Inr (cursor_from n 0 (unat nrTries),
          st\<lparr>dummy := dummy st + read_sum n (unat nrTries),
             trace := trace st @ loads n (unat nrTries)\<rparr>)"
  using read_loop_run [of st "pattern n" 0 0 nrTries]
  by (simp add: length_pattern read_sum_def loads_def)

lemma write_loop_fresh:
  "memUsage st = n \<Longrightarrow> 0 < n \<Longrightarrow> length p = unat n \<Longrightarrow>
   write_loop nrTries p 0 0 st =
     Inr (fold (\<lambda>j q. q[unat (cursor_from n 0 j) := ucast ((of_nat j :: size_t) mod 0xff)])
            [0..<unat nrTries] p,
          cursor_from n 0 (unat nrTries),
          st\<lparr>trace := trace st @ stores n (unat nrTries)\<rparr>)"
  using write_loop_run [of st p 0 0 nrTries]
  by (simp add: stores_def)

lemma write_loop_dummy:
  "write_loop nrTries p i pos st = Inr (p', pos', st') \<Longrightarrow> dummy st' = dummy st"
proof (induction nrTries p i pos st rule: write_loop.induct)
  case (1 nrTries p i pos st)
  show ?case
  proof (cases "i < nrTries \<and> unat pos < length p")
    case False
    with "1.prems" show ?thesis
      by (subst (asm) write_loop.simps) (auto split: if_splits)
  next
    case True
    let ?p = "p[unat pos := ucast (i mod 0xff)]"
    let ?st = "st\<lparr>trace := trace st @ [Store pos (ucast (i mod 0xff))]\<rparr>"
    from True "1.prems" obtain q where
      w: "wrap (memUsage ?st) (pos + 17 * 64) = Some q" and
      r: "write_loop nrTries ?p (i + 1) q ?st = Inr (p', pos', st')"
      by (subst (asm) write_loop.simps) (auto simp: Let_def split: option.splits)
    from True have "dummy st' = dummy ?st"
      by (intro "1.IH" [OF _ _ refl refl w r]) simp_all
    then show ?thesis by simp
  qed
qed

lemma fold_update_last:
  "f k < length p \<Longrightarrow> fold (\<lambda>j q. q[f j := g j]) [0..<Suc k] p ! f k = g k"
  by (simp add: length_fold_update)

lemma length_loads: "length (loads n k) = k"
  by (simp add: loads_def)

lemma length_stores: "length (stores n k) = k"
  by (simp add: stores_def)

lemma no_wrap_mono:
  "unat n + 1088 \<le> 2 ^ 64 \<or> 1088 * k < 2 ^ 64 \<Longrightarrow> j \<le> k \<Longrightarrow>
   unat n + 1088 \<le> 2 ^ 64 \<or> 1088 * j < 2 ^ 64" for n :: size_t and j k :: nat
proof -
  assume h: "unat n + 1088 \<le> 2 ^ 64 \<or> 1088 * k < 2 ^ 64" and le: "j \<le> k"
  from le have "1088 * j \<le> 1088 * k" by simp
  with h show ?thesis by auto
qed

lemma loads_closed:
  assumes "0 < n" and "unat n + 1088 \<le> 2 ^ 64 \<or> 1088 * k < 2 ^ 64"
  shows "loads n k = map (\<lambda>j. Load (of_nat ((1088 * j) mod unat n))) [0..<k]"
  unfolding loads_def
proof (rule map_cong [OF refl])
  fix j assume "j \<in> set [0..<k]"
  then have "j \<le> k" by simp
  then show "Load (cursor_from n 0 j) = Load (of_nat ((1088 * j) mod unat n))"
    using cursor_of_nat [OF assms(1) no_wrap_mono [OF assms(2)]] by simp
qed

lemma stores_closed:
  assumes "0 < n" and "unat n + 1088 \<le> 2 ^ 64 \<or> 1088 * k < 2 ^ 64"
  shows "stores n k =
     map (\<lambda>j. Store (of_nat ((1088 * j) mod unat n)) (ucast ((of_nat j :: size_t) mod 0xff))) [0..<k]"
  unfolding stores_def
proof (rule map_cong [OF refl])
  fix j assume "j \<in> set [0..<k]"
  then have "j \<le> k" by simp
  then show "Store (cursor_from n 0 j) (ucast ((of_nat j :: size_t) mod 0xff)) =
      Store (of_nat ((1088 * j) mod unat n)) (ucast ((of_nat j :: size_t) mod 0xff))"
    using cursor_of_nat [OF assms(1) no_wrap_mono [OF assms(2)]] by simp
qed

lemma stores_nth:
  "j < k \<Longrightarrow> stores n k ! j = Store (cursor_from n 0 j) (ucast ((of_nat j :: size_t) mod 0xff))"
  by (simp add: stores_def)

lemma loads_in_bounds: "0 < n \<Longrightarrow> ev \<in> set (loads n k) \<Longrightarrow> \<exists>q. ev = Load q \<and> q < n"
  by (auto simp: loads_def cursor_from_less)

lemma stores_in_bounds: "0 < n \<Longrightarrow> ev \<in> set (stores n k) \<Longrightarrow> \<exists>q v. ev = Store q v \<and> q < n"
  by (auto simp: stores_def cursor_from_less)

lemma filter_loads: "filter is_Load (loads n k) = loads n k" "filter is_Store (loads n k) = []"
  "filter is_Print (loads n k) = []"
  by (simp_all add: loads_def filter_map comp_def)

lemma filter_stores: "filter is_Store (stores n k) = stores n k" "filter is_Load (stores n k) = []"
  "filter is_Print (stores n k) = []"
  by (simp_all add: stores_def filter_map comp_def)

lemma filter_prints: "filter is_Load (map Print xs) = []" "filter is_Store (map Print xs) = []"
  "filter is_Print (map Print xs) = map Print xs"
  by (simp_all add: filter_map comp_def)

lemma read_sum_Suc:
  "read_sum n (Suc k) = read_sum n k + ucast (pattern n ! unat (cursor_from n 0 k))"
  by (simp add: read_sum_def)

lemma read_sum_closed:
  assumes "0 < n" and "\<And>j. j < k \<Longrightarrow> unat n + 1088 \<le> 2 ^ 64 \<or> 1088 * j < 2 ^ 64"
  shows "read_sum n k = of_nat (\<Sum>j < k. unat (pattern n ! ((1088 * j) mod unat n)))"
proof -
  have "(ucast (pattern n ! unat (cursor_from n 0 j)) :: uint64_t) =
      of_nat (unat (pattern n ! ((1088 * j) mod unat n)))" if "j < k" for j
    using unat_cursor_from_0 [OF assms(1) assms(2) [OF that]] by simp
  then have "read_sum n k = (\<Sum>j < k. of_nat (unat (pattern n ! ((1088 * j) mod unat n))))"
    unfolding read_sum_def by (intro sum.cong) simp_all
  then show ?thesis by simp
qed

subsection \<open>The benchmarks\<close>

text \<open>
  A benchmark whose buffer can be allocated returns; its effects are the banner, the
  allocation, the two clock readings around the timed loop, the release and the report.
\<close>

lemma report_run:
  "report operation totalTime nrOps st =
     st\<lparr>trace := trace st @ report_events operation totalTime nrOps\<rparr>"
  by (simp add: report_def cout_def report_events_def)

lemma memoryLatencyRead_run:
  "0 < memUsage st \<Longrightarrow> unat (memUsage st) \<le> avail e \<Longrightarrow>
   memoryLatencyRead e st =
     Inr (st\<lparr>dummy := dummy st + read_sum (memUsage st) (unat (nr_tries (timeFactor st))),
             ticks := Suc (Suc (ticks st)),
             trace := trace st @ read_events e (memUsage st) (timeFactor st) (ticks st)\<rparr>)"
  by (simp add: memoryLatencyRead_def cout_def new_array_def init_loop_fresh timeNow_def
      read_loop_fresh delete_array_def report_run read_events_def nr_tries_def Let_def)

lemma memoryLatencyWrite_run:
  "0 < memUsage st \<Longrightarrow> unat (memUsage st) \<le> avail e \<Longrightarrow>
   memoryLatencyWrite e st =
     Inr (st\<lparr>ticks := Suc (Suc (ticks st)),
             trace := trace st @ write_events e (memUsage st) (timeFactor st) (ticks st)\<rparr>)"
  by (simp add: memoryLatencyWrite_def cout_def new_array_def init_loop_fresh timeNow_def
      write_loop_fresh length_pattern delete_array_def report_run write_events_def nr_tries_def Let_def)

lemma memoryLatencyRead_bad_alloc:
  "avail e < unat (memUsage st) \<Longrightarrow> memoryLatencyRead e st = Inl Bad_Alloc"
  by (simp add: memoryLatencyRead_def cout_def new_array_def Let_def)

lemma memoryLatencyWrite_bad_alloc:
  "avail e < unat (memUsage st) \<Longrightarrow> memoryLatencyWrite e st = Inl Bad_Alloc"
  by (simp add: memoryLatencyWrite_def cout_def new_array_def Let_def)

lemma memoryLatencyRead_safe:
  "0 < memUsage st \<Longrightarrow>
   memoryLatencyRead e st \<noteq> Inl Out_Of_Bounds \<and> memoryLatencyRead e st \<noteq> Inl Never_Returns"
  by (cases "unat (memUsage st) \<le> avail e")
     (simp_all add: memoryLatencyRead_run memoryLatencyRead_bad_alloc)

lemma memoryLatencyWrite_safe:
  "0 < memUsage st \<Longrightarrow>
   memoryLatencyWrite e st \<noteq> Inl Out_Of_Bounds \<and> memoryLatencyWrite e st \<noteq> Inl Never_Returns"
  by (cases "unat (memUsage st) \<le> avail e")
     (simp_all add: memoryLatencyWrite_run memoryLatencyWrite_bad_alloc)

lemma memoryLatencyWrite_dummy:
  "memoryLatencyWrite e st = Inr st' \<Longrightarrow> dummy st' = dummy st"
  by (auto simp: memoryLatencyWrite_def Let_def cout_def new_array_def timeNow_def
      delete_array_def report_run split: sum.splits if_splits prod.splits
      dest!: write_loop_dummy)

subsection \<open>The configuration\<close>

text \<open>
  Lines 131 to 149 fail exactly when \<open>std::stoul\<close> throws, and otherwise set the
  globals to the clamped values.
\<close>

lemma clamp_mem:
  "(if (if 0 < m then m else 128) < 1048576 then if 0 < m then m else 128 else 1024) =
   resolved_mem m" for m :: size_t
  by (simp add: resolved_mem_def word_neq_0_conv [symmetric])

lemma clamp_disk:
  "(if (if 16 \<le> d then d else 16) < 1048576 then if 16 \<le> d then d else 16 else 1024) =
   resolved_disk d" for d :: size_t
  by (auto simp: resolved_disk_def word_less_nat_alt word_le_nat_alt)

lemma clamp_tf:
  "(if (if 0 < t then t else 100) < 1000 then if 0 < t then t else 100 else 100) =
   resolved_tf t" for t :: size_t
  by (simp add: resolved_tf_def word_neq_0_conv [symmetric])

lemma configure_run3:
  "length argv < 4 \<Longrightarrow> stoul (argv ! 1) = Inr m \<Longrightarrow> stoul (argv ! 2) = Inr d \<Longrightarrow>
   configure argv st =
     Inr (st\<lparr>memUsage := resolved_mem m * 1048576, diskUsage := resolved_disk d * 1048576,
             trace := trace st @ config_events m d\<rparr>)"
  by (simp add: configure_def cout_def Let_def config_events_def clamp_mem clamp_disk
      split del: if_split cong: if_cong)

lemma configure_run4:
  "4 \<le> length argv \<Longrightarrow> stoul (argv ! 1) = Inr m \<Longrightarrow> stoul (argv ! 2) = Inr d \<Longrightarrow>
   stoul (argv ! 3) = Inr t \<Longrightarrow>
   configure argv st =
     Inr (st\<lparr>memUsage := resolved_mem m * 1048576, diskUsage := resolved_disk d * 1048576,
             timeFactor := resolved_tf t,
             trace := trace st @ config_events m d @ tf_events t\<rparr>)"
  by (simp add: configure_def cout_def Let_def config_events_def tf_events_def
      clamp_mem clamp_disk clamp_tf split del: if_split cong: if_cong)

lemma configure_error1: "stoul (argv ! 1) = Inl x \<Longrightarrow> configure argv st = Inl x"
  by (simp add: configure_def)

lemma configure_error2:
  "stoul (argv ! 1) = Inr m \<Longrightarrow> stoul (argv ! 2) = Inl x \<Longrightarrow> configure argv st = Inl x"
  by (simp add: configure_def Let_def)

lemma configure_error3:
  "stoul (argv ! 1) = Inr m \<Longrightarrow> stoul (argv ! 2) = Inr d \<Longrightarrow> 4 \<le> length argv \<Longrightarrow>
   stoul (argv ! 3) = Inl x \<Longrightarrow> configure argv st = Inl x"
  by (simp add: configure_def Let_def)

lemma configure_Inr:
  assumes "configure argv st = Inr st'"
  obtains m d where "stoul (argv ! 1) = Inr m" and "stoul (argv ! 2) = Inr d"
    and "memUsage st' = resolved_mem m * 1048576"
    and "diskUsage st' = resolved_disk d * 1048576"
    and "length argv < 4 \<Longrightarrow> timeFactor st' = timeFactor st"
    and "\<And>t. 4 \<le> length argv \<Longrightarrow> stoul (argv ! 3) = Inr t \<Longrightarrow> timeFactor st' = resolved_tf t"
    and "4 \<le> length argv \<Longrightarrow> \<exists>t. stoul (argv ! 3) = Inr t"
proof -
  obtain m where m: "stoul (argv ! 1) = Inr m"
    using assms configure_error1 [of argv _ st] by (cases "stoul (argv ! 1)") auto
  obtain d where d: "stoul (argv ! 2) = Inr d"
    using assms m configure_error2 [of argv m _ st] by (cases "stoul (argv ! 2)") auto
  show thesis
  proof (cases "4 \<le> length argv")
    case False
    then have "st' = st\<lparr>memUsage := resolved_mem m * 1048576,
        diskUsage := resolved_disk d * 1048576, trace := trace st @ config_events m d\<rparr>"
      using assms configure_run3 [OF _ m d, of st] by simp
    with False m d show thesis by (intro that [of m d]) simp_all
  next
    case True
    obtain t where t: "stoul (argv ! 3) = Inr t"
      using assms m d True configure_error3 [of argv m d _ st]
      by (cases "stoul (argv ! 3)") auto
    have "st' = st\<lparr>memUsage := resolved_mem m * 1048576,
        diskUsage := resolved_disk d * 1048576, timeFactor := resolved_tf t,
        trace := trace st @ config_events m d @ tf_events t\<rparr>"
      using assms configure_run4 [OF True m d t, of st] by simp
    with True m d t show thesis by (intro that [of m d]) auto
  qed
qed

lemma configure_Inr_state:
  assumes "configure argv st = Inr st'"
  obtains m d where "stoul (argv ! 1) = Inr m" and "stoul (argv ! 2) = Inr d"
    and "length argv < 4 \<Longrightarrow>
      st' = st\<lparr>memUsage := resolved_mem m * 1048576, diskUsage := resolved_disk d * 1048576,
               trace := trace st @ config_events m d\<rparr>"
    and "4 \<le> length argv \<Longrightarrow>
      \<exists>t. stoul (argv ! 3) = Inr t \<and>
        st' = st\<lparr>memUsage := resolved_mem m * 1048576, diskUsage := resolved_disk d * 1048576,
                 timeFactor := resolved_tf t,
                 trace := trace st @ config_events m d @ tf_events t\<rparr>"
proof -
  from assms obtain m d where m: "stoul (argv ! 1) = Inr m" and d: "stoul (argv ! 2) = Inr d"
    and ex: "4 \<le> length argv \<Longrightarrow> \<exists>t. stoul (argv ! 3) = Inr t"
    by (rule configure_Inr) blast
  have 3: "st' = st\<lparr>memUsage := resolved_mem m * 1048576,
      diskUsage := resolved_disk d * 1048576, trace := trace st @ config_events m d\<rparr>"
    if "length argv < 4"
    using assms configure_run3 [OF that m d, of st] by simp
  have 4: "\<exists>t. stoul (argv ! 3) = Inr t \<and>
      st' = st\<lparr>memUsage := resolved_mem m * 1048576, diskUsage := resolved_disk d * 1048576,
               timeFactor := resolved_tf t,
               trace := trace st @ config_events m d @ tf_events t\<rparr>"
    if "4 \<le> length argv"
  proof -
    from ex [OF that] obtain t where t: "stoul (argv ! 3) = Inr t" ..
    then show ?thesis using assms configure_run4 [OF that m d t, of st] by auto
  qed
  show thesis using m d 3 4 by (rule that)
qed

lemma configure_dummy:
  assumes "configure argv st = Inr st'"
  shows "dummy st' = dummy st"
proof -
  from assms obtain m d where
    3: "length argv < 4 \<Longrightarrow>
      st' = st\<lparr>memUsage := resolved_mem m * 1048576, diskUsage := resolved_disk d * 1048576,
               trace := trace st @ config_events m d\<rparr>" and
    4: "4 \<le> length argv \<Longrightarrow>
      \<exists>t. stoul (argv ! 3) = Inr t \<and>
        st' = st\<lparr>memUsage := resolved_mem m * 1048576, diskUsage := resolved_disk d * 1048576,
                 timeFactor := resolved_tf t,
                 trace := trace st @ config_events m d @ tf_events t\<rparr>"
    by (rule configure_Inr_state) blast
  show ?thesis
  proof (cases "4 \<le> length argv")
    case True
    with 4 show ?thesis by auto
  next
    case False
    with 3 show ?thesis by auto
  qed
qed

lemma unat_resolved_mem: "1 \<le> unat (resolved_mem m) \<and> unat (resolved_mem m) < 1048576"
proof -
  have "m \<noteq> 0 \<Longrightarrow> 1 \<le> unat m" by (simp add: unat_gt_0 Suc_le_eq)
  moreover have "m < 1048576 \<Longrightarrow> unat m < 1048576" by (simp add: word_less_nat_alt)
  ultimately show ?thesis by (simp add: resolved_mem_def)
qed

lemma unat_resolved_mem_bytes:
  "unat (resolved_mem m * 1048576) = unat (resolved_mem m) * 1048576"
proof -
  have "unat (resolved_mem m) * 1048576 < 2 ^ 64" using unat_resolved_mem [of m] by simp
  then show ?thesis by (simp add: unat_word_ariths)
qed

lemma resolved_mem_bytes_pos: "0 < resolved_mem m * 1048576"
  using unat_resolved_mem [of m] unat_resolved_mem_bytes [of m]
  by (simp add: word_less_nat_alt)

lemma resolved_tf_range: "1 \<le> resolved_tf t \<and> resolved_tf t \<le> 999"
  by (auto simp: resolved_tf_def word_less_nat_alt word_le_nat_alt unat_gt_0 Suc_le_eq
      simp flip: word_neq_0_conv)

lemma unat_nr_tries:
  "tf \<le> 999 \<Longrightarrow> unat (nr_tries tf) = 300000000 * unat tf div 100"
proof -
  assume "tf \<le> 999"
  then have "unat tf \<le> 999" by (simp add: word_le_nat_alt)
  then have "300000000 * unat tf < 2 ^ 64" by simp
  then have "unat (300000000 * tf) = 300000000 * unat tf"
    by (simp add: unat_word_ariths)
  then show ?thesis by (simp add: nr_tries_def unat_div)
qed

lemma filter_config_events:
  "filter is_Load (config_events m d) = []" "filter is_Store (config_events m d) = []"
  "filter is_Load (tf_events t) = []" "filter is_Store (tf_events t) = []"
  by (simp_all add: config_events_def tf_events_def)

lemma disk_line_only:
  "filter (\<lambda>ev. \<not> is_Print ev) (config_events m d' @ rest) =
     filter (\<lambda>ev. \<not> is_Print ev) (config_events m d @ rest) \<and>
   (\<exists>pre x x' post.
      config_events m d @ rest =
        pre @ Print (Str ''Disk   usage in MiB: '') # Print (Num x) # post \<and>
      config_events m d' @ rest =
        pre @ Print (Str ''Disk   usage in MiB: '') # Print (Num x') # post)"
proof
  show "filter (\<lambda>ev. \<not> is_Print ev) (config_events m d' @ rest) =
     filter (\<lambda>ev. \<not> is_Print ev) (config_events m d @ rest)"
    by (simp add: config_events_def)
next
  let ?pre = "map Print [Str ''Memory usage in MiB: '', Num (resolved_mem m), Endl]"
  have "config_events m d @ rest =
      ?pre @ Print (Str ''Disk   usage in MiB: '') # Print (Num (resolved_disk d)) #
      (Print Endl # rest)"
    and "config_events m d' @ rest =
      ?pre @ Print (Str ''Disk   usage in MiB: '') # Print (Num (resolved_disk d')) #
      (Print Endl # rest)"
    by (simp_all add: config_events_def)
  then show "\<exists>pre x x' post.
        config_events m d @ rest =
          pre @ Print (Str ''Disk   usage in MiB: '') # Print (Num x) # post \<and>
        config_events m d' @ rest =
          pre @ Print (Str ''Disk   usage in MiB: '') # Print (Num x') # post"
    by blast
qed

subsection \<open>Runs of main\<close>

text \<open>
  The result of \<open>main\<close> for every argument vector and environment.
\<close>

lemma main_usage:
  "length argv < 3 \<Longrightarrow> main e argv = Inr (0, initial_state\<lparr>trace := [Print (Str usage_text)]\<rparr>)"
  by (simp add: main_def cout_def initial_state_def)

lemma main_configure_error:
  "3 \<le> length argv \<Longrightarrow> configure argv initial_state = Inl x \<Longrightarrow> main e argv = Inl x"
  by (simp add: main_def)

lemma main_bad_alloc:
  "3 \<le> length argv \<Longrightarrow> configure argv initial_state = Inr st \<Longrightarrow>
   avail e < unat (memUsage st) \<Longrightarrow> main e argv = Inl Bad_Alloc"
  by (simp add: main_def memoryLatencyRead_bad_alloc)

lemma main_configured:
  "3 \<le> length argv \<Longrightarrow> configure argv initial_state = Inr st \<Longrightarrow>
   0 < memUsage st \<Longrightarrow> unat (memUsage st) \<le> avail e \<Longrightarrow>
   main e argv =
     Inr (0, st\<lparr>dummy := dummy st + read_sum (memUsage st) (unat (nr_tries (timeFactor st))),
                ticks := Suc (Suc (Suc (Suc (ticks st)))),
                trace := trace st @
                  read_events e (memUsage st) (timeFactor st) (ticks st) @
                  write_events e (memUsage st) (timeFactor st) (Suc (Suc (ticks st))) @
                  final_events (dummy st + read_sum (memUsage st) (unat (nr_tries (timeFactor st))))\<rparr>)"
  by (simp add: main_def memoryLatencyRead_run memoryLatencyWrite_run cout_def final_events_def)

lemma main_Inr:
  assumes "3 \<le> length argv" and "main e argv = Inr (rc, fin)"
  obtains st1 st2 st3 where "configure argv initial_state = Inr st1"
    and "memoryLatencyRead e st1 = Inr st2" and "memoryLatencyWrite e st2 = Inr st3"
    and "rc = 0" and "fin = cout [Str (newline @ ''Please ignore: ''), Num (dummy st3), Endl] st3"
  using assms by (auto simp: main_def split: sum.splits)

lemma main_run3:
  assumes "3 \<le> length argv" and "length argv < 4"
    and "stoul (argv ! 1) = Inr m" and "stoul (argv ! 2) = Inr d"
    and "unat (resolved_mem m * 1048576) \<le> avail e"
  shows "main e argv =
     Inr (0, initial_state\<lparr>memUsage := resolved_mem m * 1048576,
                diskUsage := resolved_disk d * 1048576,
                dummy := read_sum (resolved_mem m * 1048576) (unat (nr_tries 100)),
                ticks := 4,
                trace := config_events m d @ run_events e (resolved_mem m * 1048576) 100\<rparr>)"
proof -
  let ?st = "initial_state\<lparr>memUsage := resolved_mem m * 1048576,
      diskUsage := resolved_disk d * 1048576, trace := trace initial_state @ config_events m d\<rparr>"
  have c: "configure argv initial_state = Inr ?st"
    using assms by (intro configure_run3)
  have p: "0 < memUsage ?st" by (simp add: resolved_mem_bytes_pos)
  have a: "unat (memUsage ?st) \<le> avail e" using assms(5) by simp
  show ?thesis
    unfolding main_configured [OF assms(1) c p a]
    by (simp add: initial_state_def run_events_def numeral_eq_Suc)
qed

lemma main_run4:
  assumes "4 \<le> length argv"
    and "stoul (argv ! 1) = Inr m" and "stoul (argv ! 2) = Inr d" and "stoul (argv ! 3) = Inr t"
    and "unat (resolved_mem m * 1048576) \<le> avail e"
  shows "main e argv =
     Inr (0, initial_state\<lparr>memUsage := resolved_mem m * 1048576,
                diskUsage := resolved_disk d * 1048576,
                timeFactor := resolved_tf t,
                dummy := read_sum (resolved_mem m * 1048576) (unat (nr_tries (resolved_tf t))),
                ticks := 4,
                trace := config_events m d @ tf_events t @
                  run_events e (resolved_mem m * 1048576) (resolved_tf t)\<rparr>)"
proof -
  let ?st = "initial_state\<lparr>memUsage := resolved_mem m * 1048576,
      diskUsage := resolved_disk d * 1048576, timeFactor := resolved_tf t,
      trace := trace initial_state @ config_events m d @ tf_events t\<rparr>"
  have l: "3 \<le> length argv" using assms(1) by simp
  have c: "configure argv initial_state = Inr ?st"
    using assms by (intro configure_run4)
  have p: "0 < memUsage ?st" by (simp add: resolved_mem_bytes_pos)
  have a: "unat (memUsage ?st) \<le> avail e" using assms(5) by simp
  show ?thesis
    unfolding main_configured [OF l c p a]
    by (simp add: initial_state_def run_events_def numeral_eq_Suc)
qed

lemma filter_run_events:
  "filter is_Load (run_events e n tf) = loads n (unat (nr_tries tf))"
  "filter is_Store (run_events e n tf) = stores n (unat (nr_tries tf))"
  by (simp_all add: run_events_def read_events_def write_events_def report_events_def
      final_events_def filter_loads filter_stores)

lemma main_counts:
  assumes "3 \<le> length argv" and "configure argv initial_state = Inr st"
    and "unat (memUsage st) \<le> avail e"
  shows "1 \<le> timeFactor st \<and> timeFactor st \<le> 999 \<and>
     (\<exists>fin. main e argv = Inr (0, fin) \<and>
        length (filter is_Load (trace fin)) = 300000000 * unat (timeFactor st) div 100 \<and>
        length (filter is_Store (trace fin)) = 300000000 * unat (timeFactor st) div 100)"
proof -
  from assms(2) obtain m d where m: "stoul (argv ! 1) = Inr m" and d: "stoul (argv ! 2) = Inr d"
    and mem: "memUsage st = resolved_mem m * 1048576"
    and tf3: "length argv < 4 \<Longrightarrow> timeFactor st = timeFactor initial_state"
    and tf4: "\<And>t. 4 \<le> length argv \<Longrightarrow> stoul (argv ! 3) = Inr t \<Longrightarrow> timeFactor st = resolved_tf t"
    and ex: "4 \<le> length argv \<Longrightarrow> \<exists>t. stoul (argv ! 3) = Inr t"
    by (rule configure_Inr) blast
  have a: "unat (resolved_mem m * 1048576) \<le> avail e" using assms(3) mem by simp
  show ?thesis
  proof (cases "4 \<le> length argv")
    case False
    then have tf: "timeFactor st = 100" using tf3 by (simp add: initial_state_def)
    have "unat (nr_tries 100) = 300000000 * unat (100 :: size_t) div 100"
      by (rule unat_nr_tries) simp
    then show ?thesis
      using main_run3 [OF assms(1) _ m d a] False
      by (simp add: tf filter_config_events filter_run_events length_loads length_stores)
  next
    case True
    then obtain t where t: "stoul (argv ! 3) = Inr t" using ex by blast
    have tf: "timeFactor st = resolved_tf t" using tf4 [OF True t] .
    have "unat (nr_tries (resolved_tf t)) = 300000000 * unat (resolved_tf t) div 100"
      using resolved_tf_range [of t] by (intro unat_nr_tries) simp
    then show ?thesis
      using main_run4 [OF True m d t a] resolved_tf_range [of t]
      by (simp add: tf filter_config_events filter_run_events length_loads length_stores)
  qed
qed

text \<open>
  A run of \<open>main\<close> that gets past the argument check and returns: the buffer size is
  between 1 MiB and \<open>2^40\<close> bytes, the time factor between 1 and 999, and the loads,
  the stores and the accumulator are those of the two timed loops.
\<close>

lemma main_returns:
  assumes "3 \<le> length argv" and "main e argv = Inr (rc, fin)"
  shows "rc = 0 \<and> 1048576 \<le> unat (memUsage fin) \<and> unat (memUsage fin) < 2 ^ 40 \<and>
     1 \<le> timeFactor fin \<and> timeFactor fin \<le> 999 \<and>
     dummy fin = read_sum (memUsage fin) (unat (nr_tries (timeFactor fin))) \<and>
     filter is_Load (trace fin) = loads (memUsage fin) (unat (nr_tries (timeFactor fin))) \<and>
     filter is_Store (trace fin) = stores (memUsage fin) (unat (nr_tries (timeFactor fin)))"
proof -
  from assms obtain st1 st2 where c: "configure argv initial_state = Inr st1"
    and r: "memoryLatencyRead e st1 = Inr st2"
    by (rule main_Inr)
  from c obtain m d where m: "stoul (argv ! 1) = Inr m" and d: "stoul (argv ! 2) = Inr d"
    and mem: "memUsage st1 = resolved_mem m * 1048576"
    and ex: "4 \<le> length argv \<Longrightarrow> \<exists>t. stoul (argv ! 3) = Inr t"
    by (rule configure_Inr) blast
  have "\<not> avail e < unat (memUsage st1)"
    using r memoryLatencyRead_bad_alloc [of e st1] by auto
  then have a: "unat (resolved_mem m * 1048576) \<le> avail e" using mem by simp
  have b: "1048576 \<le> unat (resolved_mem m * 1048576) \<and> unat (resolved_mem m * 1048576) < 2 ^ 40"
    using unat_resolved_mem [of m] by (simp add: unat_resolved_mem_bytes)
  show ?thesis
  proof (cases "4 \<le> length argv")
    case False
    then show ?thesis
      using main_run3 [OF assms(1) _ m d a] assms(2) b
      by (auto simp: filter_config_events filter_run_events initial_state_def)
  next
    case True
    then obtain t where t: "stoul (argv ! 3) = Inr t" using ex by blast
    show ?thesis
      using main_run4 [OF True m d t a] assms(2) b resolved_tf_range [of t]
      by (auto simp: filter_config_events filter_run_events)
  qed
qed

subsection \<open>A worked example\<close>

text \<open>
  The run with the arguments \<open>64 16 10\<close>.
\<close>

lemma stoul_examples: "stoul ''64'' = Inr 64" "stoul ''16'' = Inr 16" "stoul ''10'' = Inr 10"
  by (simp_all add: stoul_def isspace_def isdigit_def digits_value_def)

lemma example_configure: "configure example_argv initial_state = Inr example_config"
  using configure_run4 [of example_argv 64 16 10 initial_state] stoul_examples
  by (simp add: example_argv_def example_config_def resolved_mem_def resolved_disk_def
      resolved_tf_def initial_state_def)

lemma example_main: "main (example_env 67108864) example_argv = Inr (0, example_final)"
proof -
  have r: "resolved_mem 64 * 1048576 = 67108864" "resolved_disk 16 * 1048576 = 16777216"
    "resolved_tf 10 = 10" "nr_tries 10 = 30000000"
    by (simp_all add: resolved_mem_def resolved_disk_def resolved_tf_def nr_tries_def)
  show ?thesis
    using main_run4 [of example_argv 64 16 10 "example_env 67108864"] stoul_examples
    by (simp add: example_argv_def example_final_def example_config_def r example_env_def
        initial_state_def)
qed

subsection \<open>The loops on small inputs\<close>

text \<open>
  The loops evaluated step by step from their defining equations: a buffer of 3 bytes, a
  buffer that is shorter than \<open>memUsage\<close> says, and \<open>memUsage = 0\<close>.
\<close>

lemma wrap_direct: "wrap 1000 2088 = Some 88"
  by (simp add: wrap.simps)

lemma read_loop_direct:
  "read_loop 2 (pattern 1000) 0 0 (initial_state\<lparr>memUsage := 1000\<rparr>) =
     Inr (176, initial_state\<lparr>memUsage := 1000, dummy := 88, trace := [Load 0, Load 88]\<rparr>)"
  by (simp add: read_loop.simps wrap.simps pattern_def initial_state_def)

lemma write_loop_direct:
  "write_loop 2 [7, 7, 7] 0 0 (initial_state\<lparr>memUsage := 3\<rparr>) =
     Inr ([0, 7, 1], 1, initial_state\<lparr>memUsage := 3, trace := [Store 0 0, Store 2 1]\<rparr>)"
  by (simp add: write_loop.simps wrap_mod initial_state_def)

lemma init_loop_direct: "init_loop 3 [7, 7, 7] 0 = Inr [0, 1, 2]"
  by (simp add: init_loop.simps)

lemma write_loop_out_of_bounds:
  "write_loop 2 [7, 7] 0 0 (initial_state\<lparr>memUsage := 3\<rparr>) = Inl Out_Of_Bounds"
  by (simp add: write_loop.simps wrap_mod initial_state_def)

lemma read_loop_hangs:
  "read_loop 1 [7] 0 0 (initial_state\<lparr>memUsage := 0\<rparr>) = Inl Never_Returns"
  by (simp add: read_loop.simps wrap_zero initial_state_def)

section \<open>The claims\<close>

text \<open>
  C1.  The write loop stores \<open>i % 0xff\<close>, that is \<open>i mod 255\<close>, where the claim says
  \<open>i mod 256\<close>.  With the arguments \<open>1 16 1\<close>, \<open>main\<close> sets \<open>memUsage\<close> to 1048576 and
  \<open>timeFactor\<close> to 1, so the write loop runs 3000000 times on a buffer of 1048576 bytes.
  In that run the store of iteration \<open>i = 255\<close> writes 0 (the claim: 255) at offset
  277440, and the last store, of iteration \<open>i = 2999999\<close>, writes 179 (the claim: 191) at
  offset \<open>(1088 * 2999999) mod 1048576 = 830400\<close>.  The write loop on these sizes
  returns a buffer whose byte at offset 830400 is 179.
\<close>

theorem C1_write_stores_mod_255:
  "(\<exists>fin. main (example_env 1048576) [''fuxx'', ''1'', ''16'', ''1''] = Inr (0, fin) \<and>
      memUsage fin = 1048576 \<and> 300000000 * timeFactor fin div 100 = 3000000 \<and>
      length (filter is_Store (trace fin)) = 3000000 \<and>
      filter is_Store (trace fin) ! 255 = Store 277440 0 \<and>
      filter is_Store (trace fin) ! 2999999 = Store 830400 179) \<and>
   (\<exists>p' pos st'.
      write_loop 3000000 (pattern 1048576) 0 0 (initial_state\<lparr>memUsage := 1048576, timeFactor := 1\<rparr>) =
        Inr (p', pos, st') \<and>
      trace st' ! 255 = Store 277440 0 \<and>
      trace st' ! 2999999 = Store 830400 179 \<and>
      length (trace st') = 3000000 \<and>
      p' ! 830400 = 179) \<and>
   (1088 * 2999999) mod 1048576 = (830400 :: nat) \<and>
   2999999 mod 256 = (191 :: nat) \<and> 255 mod 256 = (255 :: nat)"
proof (intro conjI)
  let ?N = "1048576 :: size_t"
  let ?st = "initial_state\<lparr>memUsage := ?N, timeFactor := 1\<rparr>"
  let ?F = "\<lambda>j q. q[unat (cursor_from ?N 0 j) := ucast ((of_nat j :: size_t) mod 0xff)]"
  have c1: "cursor_from ?N 0 2999999 = 830400"
  proof -
    have "cursor_from ?N 0 2999999 = of_nat ((1088 * 2999999) mod unat ?N)"
      by (rule cursor_of_nat) simp_all
    then show ?thesis by simp
  qed
  have c2: "cursor_from ?N 0 255 = 277440"
  proof -
    have "cursor_from ?N 0 255 = of_nat ((1088 * 255) mod unat ?N)"
      by (rule cursor_of_nat) simp_all
    then show ?thesis by simp
  qed
  have e255: "stores ?N 3000000 ! 255 = Store 277440 0"
    using stores_nth [of 255 3000000 ?N] by (simp add: c2)
  have elast: "stores ?N 3000000 ! 2999999 = Store 830400 179"
    using stores_nth [of 2999999 3000000 ?N] by (simp add: c1)
  have len: "length (stores ?N 3000000) = 3000000"
    by (simp add: length_stores)
  have r: "resolved_mem 1 * 1048576 = 1048576" "resolved_tf 1 = 1" "nr_tries 1 = 3000000"
    by (simp_all add: resolved_mem_def resolved_tf_def nr_tries_def)
  have s: "stoul ''1'' = Inr 1" "stoul ''16'' = Inr 16"
    by (simp_all add: stoul_def isspace_def isdigit_def digits_value_def)
  have m: "main (example_env 1048576) [''fuxx'', ''1'', ''16'', ''1''] =
     Inr (0, initial_state\<lparr>memUsage := resolved_mem 1 * 1048576,
                diskUsage := resolved_disk 16 * 1048576,
                timeFactor := resolved_tf 1,
                dummy := read_sum (resolved_mem 1 * 1048576) (unat (nr_tries (resolved_tf 1))),
                ticks := 4,
                trace := config_events 1 16 @ tf_events 1 @
                  run_events (example_env 1048576) (resolved_mem 1 * 1048576) (resolved_tf 1)\<rparr>)"
    using s by (intro main_run4) (simp_all add: r example_env_def)
  have f: "filter is_Store (config_events 1 16 @ tf_events 1 @
      run_events (example_env 1048576) 1048576 1) = stores ?N 3000000"
    by (simp add: filter_config_events filter_run_events r)
  show "\<exists>fin. main (example_env 1048576) [''fuxx'', ''1'', ''16'', ''1''] = Inr (0, fin) \<and>
      memUsage fin = 1048576 \<and> 300000000 * timeFactor fin div 100 = 3000000 \<and>
      length (filter is_Store (trace fin)) = 3000000 \<and>
      filter is_Store (trace fin) ! 255 = Store 277440 0 \<and>
      filter is_Store (trace fin) ! 2999999 = Store 830400 179"
    unfolding m r
    by (intro exI conjI, rule refl) (simp_all add: f e255 elast len del: filter_append)
  have w: "write_loop 3000000 (pattern ?N) 0 0 ?st =
     Inr (fold ?F [0..<unat (3000000 :: size_t)] (pattern ?N),
          cursor_from ?N 0 (unat (3000000 :: size_t)),
          ?st\<lparr>trace := trace ?st @ stores ?N (unat (3000000 :: size_t))\<rparr>)"
    by (rule write_loop_fresh) (simp_all add: length_pattern)
  have k: "unat (3000000 :: size_t) = 3000000" by simp
  have k': "(3000000 :: nat) = Suc 2999999" by simp
  have t: "trace (?st\<lparr>trace := trace ?st @ stores ?N 3000000\<rparr>) = stores ?N 3000000"
    by (simp add: initial_state_def)
  have "fold ?F [0..<Suc 2999999] (pattern ?N) ! unat (cursor_from ?N 0 2999999) =
      ucast ((of_nat 2999999 :: size_t) mod 0xff)"
    by (rule fold_update_last) (simp add: c1 length_pattern)
  then have "fold ?F [0..<Suc 2999999] (pattern ?N) ! 830400 = 179"
    by (simp only: c1) simp
  then have b: "fold ?F [0..<3000000] (pattern ?N) ! 830400 = 179"
    by (simp only: k' [symmetric])
  show "\<exists>p' pos st'.
      write_loop 3000000 (pattern ?N) 0 0 ?st = Inr (p', pos, st') \<and>
      trace st' ! 255 = Store 277440 0 \<and>
      trace st' ! 2999999 = Store 830400 179 \<and>
      length (trace st') = 3000000 \<and>
      p' ! 830400 = 179"
    unfolding w k
    by (intro exI conjI, rule refl) (simp_all only: t e255 elast len b)
  show "(1088 * 2999999) mod 1048576 = (830400 :: nat)" by simp
  show "2999999 mod 256 = (191 :: nat)" by simp
  show "255 mod 256 = (255 :: nat)" by simp
qed

text \<open>
  C2.  For a buffer of \<open>N = memUsage\<close> bytes with \<open>1 \<le> N \<le> 2^63 - 1\<close> (the sizes an
  array can have on an LP64 platform: \<open>new uint8_t[N]\<close> returns no larger one) and for
  every iteration count \<open>nrOps\<close>: the initialisation loop fills the buffer with
  \<open>p[i] = i mod 256\<close>, and the timed loop of the read benchmark, started with
  \<open>dummy = 0\<close>, returns and leaves in \<open>dummy\<close> the sum of \<open>p[(1088 * k) mod N]\<close> over
  \<open>k < nrOps\<close>, modulo \<open>2^64\<close>.  In every run of \<open>main\<close> that gets past the argument
  check and returns, \<open>N\<close> is at least 1 MiB and below \<open>2^40\<close>, and the final \<open>dummy\<close>
  is that sum for \<open>nrOps = 300000000 * timeFactor / 100\<close>.
\<close>

theorem C2_read_accumulator:
  "(1 \<le> memUsage st \<and> unat (memUsage st) \<le> 2 ^ 63 - 1 \<and> length p0 = unat (memUsage st) \<and>
    dummy st = 0 \<longrightarrow>
      (\<exists>p pos st'.
         init_loop (memUsage st) p0 0 = Inr p \<and>
         (\<forall>i < unat (memUsage st). unat (p ! i) = i mod 256) \<and>
         read_loop nrOps p 0 0 st = Inr (pos, st') \<and>
         unat (dummy st') =
           (\<Sum>k < unat nrOps. unat (p ! ((1088 * k) mod unat (memUsage st)))) mod 2 ^ 64)) \<and>
   (3 \<le> length argv \<and> main e argv = Inr (rc, fin) \<longrightarrow>
      1048576 \<le> unat (memUsage fin) \<and> unat (memUsage fin) < 2 ^ 40 \<and>
      unat (dummy fin) =
        (\<Sum>k < 300000000 * unat (timeFactor fin) div 100.
           ((1088 * k) mod unat (memUsage fin)) mod 256) mod 2 ^ 64)"
proof (intro conjI impI)
  assume h: "1 \<le> memUsage st \<and> unat (memUsage st) \<le> 2 ^ 63 - 1 \<and>
    length p0 = unat (memUsage st) \<and> dummy st = 0"
  let ?n = "memUsage st"
  have pos: "0 < ?n" using h by (simp add: one_le_word)
  have nw: "unat ?n + 1088 \<le> 2 ^ 64 \<or> 1088 * j < 2 ^ 64" for j :: nat
    using h by simp
  have len: "length p0 = unat ?n" using h by simp
  have d0: "dummy st = 0" using h by simp
  have i: "init_loop ?n p0 0 = Inr (pattern ?n)" using len by (rule init_loop_fresh)
  have r: "read_loop nrOps (pattern ?n) 0 0 st =
     Inr (cursor_from ?n 0 (unat nrOps),
          st\<lparr>dummy := dummy st + read_sum ?n (unat nrOps),
             trace := trace st @ loads ?n (unat nrOps)\<rparr>)"
    using pos by (intro read_loop_fresh) simp_all
  have s: "read_sum ?n (unat nrOps) =
      of_nat (\<Sum>k < unat nrOps. unat (pattern ?n ! ((1088 * k) mod unat ?n)))"
    using pos nw by (intro read_sum_closed) simp_all
  show "\<exists>p pos st'.
         init_loop ?n p0 0 = Inr p \<and>
         (\<forall>i < unat ?n. unat (p ! i) = i mod 256) \<and>
         read_loop nrOps p 0 0 st = Inr (pos, st') \<and>
         unat (dummy st') =
           (\<Sum>k < unat nrOps. unat (p ! ((1088 * k) mod unat ?n))) mod 2 ^ 64"
  proof (intro exI conjI)
    show "init_loop ?n p0 0 = Inr (pattern ?n)" by (rule i)
    show "\<forall>i < unat ?n. unat (pattern ?n ! i) = i mod 256" by (simp add: pattern_nth)
    show "read_loop nrOps (pattern ?n) 0 0 st =
       Inr (cursor_from ?n 0 (unat nrOps),
            st\<lparr>dummy := dummy st + read_sum ?n (unat nrOps),
               trace := trace st @ loads ?n (unat nrOps)\<rparr>)"
      by (rule r)
    show "unat (dummy (st\<lparr>dummy := dummy st + read_sum ?n (unat nrOps),
               trace := trace st @ loads ?n (unat nrOps)\<rparr>)) =
       (\<Sum>k < unat nrOps. unat (pattern ?n ! ((1088 * k) mod unat ?n))) mod 2 ^ 64"
    proof -
      have "dummy (st\<lparr>dummy := dummy st + read_sum ?n (unat nrOps),
               trace := trace st @ loads ?n (unat nrOps)\<rparr>) = read_sum ?n (unat nrOps)"
        by (simp add: d0)
      also note s
      finally show ?thesis by (simp only: unat_of_nat) simp
    qed
  qed
next
  assume h: "3 \<le> length argv \<and> main e argv = Inr (rc, fin)"
  let ?n = "memUsage fin"
  let ?k = "300000000 * unat (timeFactor fin) div 100"
  have m: "1048576 \<le> unat ?n \<and> unat ?n < 2 ^ 40 \<and> timeFactor fin \<le> 999 \<and>
      dummy fin = read_sum ?n (unat (nr_tries (timeFactor fin)))"
    using main_returns [of argv e rc fin] h by blast
  from m show "1048576 \<le> unat ?n" by blast
  from m show "unat ?n < 2 ^ 40" by blast
  have pos: "0 < ?n" using m by (simp add: word_less_nat_alt)
  have nw: "unat ?n + 1088 \<le> 2 ^ 64 \<or> 1088 * j < 2 ^ 64" for j :: nat
    using m by simp
  have k: "unat (nr_tries (timeFactor fin)) = ?k" using m by (intro unat_nr_tries) blast
  have n0: "0 < unat ?n" using m by simp
  have "read_sum ?n ?k = of_nat (\<Sum>j < ?k. unat (pattern ?n ! ((1088 * j) mod unat ?n)))"
    using pos nw by (intro read_sum_closed) simp_all
  also have "(\<Sum>j < ?k. unat (pattern ?n ! ((1088 * j) mod unat ?n))) =
      (\<Sum>j < ?k. ((1088 * j) mod unat ?n) mod 256)"
    using n0 by (intro sum.cong refl pattern_nth) simp
  finally have "dummy fin = of_nat (\<Sum>j < ?k. ((1088 * j) mod unat ?n) mod 256)"
    using m k by simp
  then have "unat (dummy fin) = unat (of_nat (\<Sum>j < ?k. ((1088 * j) mod unat ?n) mod 256) :: uint64_t)"
    by (rule arg_cong)
  then show "unat (dummy fin) = (\<Sum>k < ?k. ((1088 * k) mod unat ?n) mod 256) mod 2 ^ 64"
    by (simp only: unat_of_nat) simp
qed

theorem C2_read_accumulator_witness:
  "(1 :: size_t) \<le> memUsage (initial_state\<lparr>memUsage := 2000\<rparr>) \<and>
   unat (memUsage (initial_state\<lparr>memUsage := 2000\<rparr>)) \<le> 2 ^ 63 - 1 \<and>
   length (replicate 2000 (0 :: uint8_t)) = unat (memUsage (initial_state\<lparr>memUsage := 2000\<rparr>)) \<and>
   dummy (initial_state\<lparr>memUsage := 2000\<rparr>) = 0 \<and>
   (\<exists>p pos st'.
      init_loop 2000 (replicate 2000 0) 0 = Inr p \<and>
      p ! 0 = 0 \<and> p ! 1088 = 64 \<and> p ! 176 = 176 \<and>
      read_loop 3 p 0 0 (initial_state\<lparr>memUsage := 2000\<rparr>) = Inr (pos, st') \<and>
      dummy st' = 240) \<and>
   3 \<le> length example_argv \<and>
   main (example_env 67108864) example_argv = Inr (0, example_final) \<and>
   unat (dummy example_final) =
     (\<Sum>k < 30000000. ((1088 * k) mod 67108864) mod 256) mod 2 ^ 64"
proof -
  let ?st = "initial_state\<lparr>memUsage := 2000\<rparr>"
  have a: "(1 :: size_t) \<le> memUsage ?st" by simp
  have b: "unat (memUsage ?st) \<le> 2 ^ 63 - 1" by simp
  have c: "length (replicate 2000 (0 :: uint8_t)) = unat (memUsage ?st)" by simp
  have d: "dummy ?st = 0" by (simp add: initial_state_def)
  have l: "3 \<le> length example_argv" by (simp add: example_argv_def)
  have u: "{..<3 :: nat} = {0, 1, 2}" by auto
  have f: "memUsage example_final = 67108864" "timeFactor example_final = 10"
    by (simp_all add: example_final_def example_config_def)
  note t = C2_read_accumulator [of ?st "replicate 2000 0" 3 example_argv "example_env 67108864"
      0 example_final]
  have "\<exists>p pos st'.
      init_loop 2000 (replicate 2000 0) 0 = Inr p \<and>
      (\<forall>i < 2000. unat (p ! i) = i mod 256) \<and>
      read_loop 3 p 0 0 ?st = Inr (pos, st') \<and>
      unat (dummy st') = 240"
    using t [THEN conjunct1] a b c d by (auto simp: u add.assoc)
  then obtain p pos st' where
    i: "init_loop 2000 (replicate 2000 0) 0 = Inr p" and
    v: "\<forall>i < 2000. unat (p ! i) = i mod 256" and
    r: "read_loop 3 p 0 0 ?st = Inr (pos, st')" and
    s': "unat (dummy st') = 240"
    by blast
  have p: "p ! 0 = 0" "p ! 1088 = 64" "p ! 176 = 176"
    using v by (simp_all only: word_unat_eq_iff) simp_all
  from s' have "dummy st' = 240" by (simp only: word_unat_eq_iff) simp
  with i p r have e: "\<exists>p pos st'.
      init_loop 2000 (replicate 2000 0) 0 = Inr p \<and>
      p ! 0 = 0 \<and> p ! 1088 = 64 \<and> p ! 176 = 176 \<and>
      read_loop 3 p 0 0 ?st = Inr (pos, st') \<and> dummy st' = 240"
    by blast
  have "unat (dummy example_final) =
     (\<Sum>k < 30000000. ((1088 * k) mod 67108864) mod 256) mod 2 ^ 64"
    using t [THEN conjunct2] l example_main by (simp add: f)
  with a b c d e l example_main show ?thesis by blast
qed

text \<open>
  C3.  For a buffer of \<open>N = memUsage\<close> bytes with \<open>1 \<le> N \<le> 2^63 - 1\<close> (the sizes an
  array can have on an LP64 platform) and for every number of iterations \<open>k\<close>, both
  timed loops started at \<open>pos = 0\<close> access the offsets \<open>(1088 * j) mod N\<close> for
  \<open>j = 0, 1, ..., k - 1\<close> in this order, and after the \<open>k\<close> iterations \<open>pos\<close> is
  \<open>(1088 * k) mod N\<close>: the subtraction loop computes what modular reduction computes,
  in the read and in the write benchmark alike.  In every run of \<open>main\<close> that gets past
  the argument check and returns, \<open>N\<close> is at least 1 MiB and below \<open>2^40\<close>, and the
  loads of the read benchmark and the stores of the write benchmark are at these
  offsets, for \<open>j < 300000000 * timeFactor / 100\<close>.
\<close>

theorem C3_cursor_closed_form:
  "(1 \<le> memUsage st \<and> unat (memUsage st) \<le> 2 ^ 63 - 1 \<and> length p = unat (memUsage st) \<longrightarrow>
      (\<exists>st' p' st''.
         read_loop k p 0 0 st = Inr (of_nat ((1088 * unat k) mod unat (memUsage st)), st') \<and>
         trace st' = trace st @
           map (\<lambda>j. Load (of_nat ((1088 * j) mod unat (memUsage st)))) [0..<unat k] \<and>
         write_loop k p 0 0 st = Inr (p', of_nat ((1088 * unat k) mod unat (memUsage st)), st'') \<and>
         trace st'' = trace st @
           map (\<lambda>j. Store (of_nat ((1088 * j) mod unat (memUsage st)))
                      (ucast ((of_nat j :: size_t) mod 0xff))) [0..<unat k])) \<and>
   (3 \<le> length argv \<and> main e argv = Inr (rc, fin) \<longrightarrow>
      1048576 \<le> unat (memUsage fin) \<and> unat (memUsage fin) < 2 ^ 40 \<and>
      filter is_Load (trace fin) =
        map (\<lambda>j. Load (of_nat ((1088 * j) mod unat (memUsage fin))))
          [0..<300000000 * unat (timeFactor fin) div 100] \<and>
      filter is_Store (trace fin) =
        map (\<lambda>j. Store (of_nat ((1088 * j) mod unat (memUsage fin)))
                   (ucast ((of_nat j :: size_t) mod 0xff)))
          [0..<300000000 * unat (timeFactor fin) div 100])"
proof (intro conjI impI)
  assume h: "1 \<le> memUsage st \<and> unat (memUsage st) \<le> 2 ^ 63 - 1 \<and> length p = unat (memUsage st)"
  let ?n = "memUsage st"
  have pos: "0 < ?n" using h by (simp add: one_le_word)
  have nw: "unat ?n + 1088 \<le> 2 ^ 64 \<or> 1088 * unat k < 2 ^ 64" using h by simp
  have len: "length p = unat ?n" using h by simp
  have c: "cursor_from ?n 0 (unat k) = of_nat ((1088 * unat k) mod unat ?n)"
    using pos nw by (rule cursor_of_nat)
  have r: "read_loop k p 0 0 st =
     Inr (cursor_from ?n 0 (unat k),
          st\<lparr>dummy := dummy st + (\<Sum>j < unat k. ucast (p ! unat (cursor_from ?n 0 j))),
             trace := trace st @ loads ?n (unat k)\<rparr>)"
    using read_loop_run [of st p 0 0 k] pos len by (simp add: loads_def)
  have w: "write_loop k p 0 0 st =
     Inr (fold (\<lambda>j q. q[unat (cursor_from ?n 0 j) := ucast ((of_nat j :: size_t) mod 0xff)])
            [0..<unat k] p,
          cursor_from ?n 0 (unat k),
          st\<lparr>trace := trace st @ stores ?n (unat k)\<rparr>)"
    using pos len by (intro write_loop_fresh) simp_all
  show "\<exists>st' p' st''.
         read_loop k p 0 0 st = Inr (of_nat ((1088 * unat k) mod unat ?n), st') \<and>
         trace st' = trace st @
           map (\<lambda>j. Load (of_nat ((1088 * j) mod unat ?n))) [0..<unat k] \<and>
         write_loop k p 0 0 st = Inr (p', of_nat ((1088 * unat k) mod unat ?n), st'') \<and>
         trace st'' = trace st @
           map (\<lambda>j. Store (of_nat ((1088 * j) mod unat ?n))
                      (ucast ((of_nat j :: size_t) mod 0xff))) [0..<unat k]"
    unfolding r w c by (simp add: loads_closed [OF pos nw] stores_closed [OF pos nw])
next
  assume h: "3 \<le> length argv \<and> main e argv = Inr (rc, fin)"
  let ?n = "memUsage fin"
  let ?k = "300000000 * unat (timeFactor fin) div 100"
  have m: "1048576 \<le> unat ?n \<and> unat ?n < 2 ^ 40 \<and> timeFactor fin \<le> 999 \<and>
      filter is_Load (trace fin) = loads ?n (unat (nr_tries (timeFactor fin))) \<and>
      filter is_Store (trace fin) = stores ?n (unat (nr_tries (timeFactor fin)))"
    using main_returns [of argv e rc fin] h by blast
  from m show "1048576 \<le> unat ?n" by blast
  from m show "unat ?n < 2 ^ 40" by blast
  have pos: "0 < ?n" using m by (simp add: word_less_nat_alt)
  have nw: "unat ?n + 1088 \<le> 2 ^ 64 \<or> 1088 * ?k < 2 ^ 64" using m by simp
  have k: "unat (nr_tries (timeFactor fin)) = ?k" using m by (intro unat_nr_tries) blast
  show "filter is_Load (trace fin) =
      map (\<lambda>j. Load (of_nat ((1088 * j) mod unat ?n))) [0..<?k]"
    using m unfolding k by (simp only: loads_closed [OF pos nw])
  show "filter is_Store (trace fin) =
      map (\<lambda>j. Store (of_nat ((1088 * j) mod unat ?n)) (ucast ((of_nat j :: size_t) mod 0xff)))
        [0..<?k]"
    using m unfolding k by (simp only: stores_closed [OF pos nw])
qed

theorem C3_cursor_closed_form_witness:
  "(1 :: size_t) \<le> memUsage (initial_state\<lparr>memUsage := 2000\<rparr>) \<and>
   unat (memUsage (initial_state\<lparr>memUsage := 2000\<rparr>)) \<le> 2 ^ 63 - 1 \<and>
   length (pattern 2000) = unat (memUsage (initial_state\<lparr>memUsage := 2000\<rparr>)) \<and>
   (\<exists>st' p' st''.
      read_loop 3 (pattern 2000) 0 0 (initial_state\<lparr>memUsage := 2000\<rparr>) = Inr (1264, st') \<and>
      trace st' = [Load 0, Load 1088, Load 176] \<and>
      write_loop 3 (pattern 2000) 0 0 (initial_state\<lparr>memUsage := 2000\<rparr>) = Inr (p', 1264, st'') \<and>
      trace st'' = [Store 0 0, Store 1088 1, Store 176 2]) \<and>
   3 \<le> length example_argv \<and>
   main (example_env 67108864) example_argv = Inr (0, example_final) \<and>
   filter is_Load (trace example_final) =
     map (\<lambda>j. Load (of_nat ((1088 * j) mod 67108864))) [0..<30000000] \<and>
   filter is_Store (trace example_final) =
     map (\<lambda>j. Store (of_nat ((1088 * j) mod 67108864)) (ucast ((of_nat j :: size_t) mod 0xff)))
       [0..<30000000]"
proof -
  let ?st = "initial_state\<lparr>memUsage := 2000\<rparr>"
  have a: "(1 :: size_t) \<le> memUsage ?st" by simp
  have b: "unat (memUsage ?st) \<le> 2 ^ 63 - 1" by simp
  have c: "length (pattern 2000) = unat (memUsage ?st)" by (simp add: length_pattern)
  have l: "3 \<le> length example_argv" by (simp add: example_argv_def)
  have u: "[0..<3] = [0, 1, 2]" by (simp add: upt_rec)
  have f: "memUsage example_final = 67108864" "timeFactor example_final = 10"
    by (simp_all add: example_final_def example_config_def)
  note t = C3_cursor_closed_form [of ?st "pattern 2000" 3 example_argv "example_env 67108864"
      0 example_final]
  have e: "\<exists>st' p' st''.
      read_loop 3 (pattern 2000) 0 0 ?st = Inr (1264, st') \<and>
      trace st' = [Load 0, Load 1088, Load 176] \<and>
      write_loop 3 (pattern 2000) 0 0 ?st = Inr (p', 1264, st'') \<and>
      trace st'' = [Store 0 0, Store 1088 1, Store 176 2]"
    using t a b c by (simp add: initial_state_def u)
  have g: "filter is_Load (trace example_final) =
     map (\<lambda>j. Load (of_nat ((1088 * j) mod 67108864))) [0..<30000000] \<and>
   filter is_Store (trace example_final) =
     map (\<lambda>j. Store (of_nat ((1088 * j) mod 67108864)) (ucast ((of_nat j :: size_t) mod 0xff)))
       [0..<30000000]"
    using t l example_main by (simp add: f)
  with a b c e l example_main show ?thesis by blast
qed





text \<open>
  C6.  \<open>st\<close> is the state after the configuration, so \<open>timeFactor st\<close> is the resolved
  time factor; it lies in 1..999.  When the buffer can be allocated, \<open>main\<close> returns 0
  and its run has exactly \<open>300000000 * timeFactor / 100\<close> (integer division, no
  wrap-around) loads in the timed loop of the read benchmark and as many stores in the
  timed loop of the write benchmark.  For the arguments \<open>64 16 10\<close> that is 30000000
  each.
\<close>

theorem C6_iteration_count:
  "(3 \<le> length argv \<and> configure argv initial_state = Inr st \<and> unat (memUsage st) \<le> avail e \<longrightarrow>
      1 \<le> timeFactor st \<and> timeFactor st \<le> 999 \<and>
      (\<exists>fin. main e argv = Inr (0, fin) \<and>
         length (filter is_Load (trace fin)) = 300000000 * unat (timeFactor st) div 100 \<and>
         length (filter is_Store (trace fin)) = 300000000 * unat (timeFactor st) div 100)) \<and>
   (67108864 \<le> avail e \<longrightarrow>
      (\<exists>fin. main e [prog, ''64'', ''16'', ''10''] = Inr (0, fin) \<and>
         length (filter is_Load (trace fin)) = 30000000 \<and>
         length (filter is_Store (trace fin)) = 30000000))"
proof (intro conjI impI)
  assume "3 \<le> length argv \<and> configure argv initial_state = Inr st \<and> unat (memUsage st) \<le> avail e"
  then have *: "1 \<le> timeFactor st \<and> timeFactor st \<le> 999 \<and>
     (\<exists>fin. main e argv = Inr (0, fin) \<and>
        length (filter is_Load (trace fin)) = 300000000 * unat (timeFactor st) div 100 \<and>
        length (filter is_Store (trace fin)) = 300000000 * unat (timeFactor st) div 100)"
    using main_counts [of argv st e] by blast
  from * show "1 \<le> timeFactor st" by blast
  from * show "timeFactor st \<le> 999" by blast
  from * show "\<exists>fin. main e argv = Inr (0, fin) \<and>
        length (filter is_Load (trace fin)) = 300000000 * unat (timeFactor st) div 100 \<and>
        length (filter is_Store (trace fin)) = 300000000 * unat (timeFactor st) div 100"
    by blast
next
  assume av: "67108864 \<le> avail e"
  let ?argv = "[prog, ''64'', ''16'', ''10'']"
  have r: "resolved_mem 64 * 1048576 = 67108864" "resolved_tf 10 = 10" "nr_tries 10 = 30000000"
    by (simp_all add: resolved_mem_def resolved_tf_def nr_tries_def)
  have "main e ?argv =
     Inr (0, initial_state\<lparr>memUsage := resolved_mem 64 * 1048576,
                diskUsage := resolved_disk 16 * 1048576,
                timeFactor := resolved_tf 10,
                dummy := read_sum (resolved_mem 64 * 1048576) (unat (nr_tries (resolved_tf 10))),
                ticks := 4,
                trace := config_events 64 16 @ tf_events 10 @
                  run_events e (resolved_mem 64 * 1048576) (resolved_tf 10)\<rparr>)"
    using stoul_examples av by (intro main_run4) (simp_all add: r)
  then show "\<exists>fin. main e ?argv = Inr (0, fin) \<and>
         length (filter is_Load (trace fin)) = 30000000 \<and>
         length (filter is_Store (trace fin)) = 30000000"
    by (simp add: r filter_config_events filter_run_events length_loads length_stores)
qed

theorem C6_iteration_count_witness:
  "3 \<le> length example_argv \<and> configure example_argv initial_state = Inr example_config \<and>
   unat (memUsage example_config) \<le> avail (example_env 67108864) \<and>
   main (example_env 67108864) example_argv = Inr (0, example_final) \<and>
   length (filter is_Load (trace example_final)) = 30000000 \<and>
   length (filter is_Store (trace example_final)) = 30000000"
proof -
  have a: "3 \<le> length example_argv" by (simp add: example_argv_def)
  have b: "unat (memUsage example_config) \<le> avail (example_env 67108864)"
    by (simp add: example_config_def example_env_def)
  have t: "timeFactor example_config = 10" by (simp add: example_config_def)
  show ?thesis
    using a b example_configure example_main
      C6_iteration_count [of example_argv example_config "example_env 67108864"]
    by (simp add: t)
qed

text \<open>
  C7.  Called with fewer than two arguments (\<open>argc < 3\<close>), \<open>main\<close> returns exit
  status 0 and its only effect is to print the usage text, which contains
  \<open>Usage: \<close>: nothing is allocated, no clock is read, no benchmark loop runs and
  the globals keep their initial values.
\<close>

theorem C7_usage_exit:
  "length argv < 3 \<Longrightarrow>
   main e argv = Inr (0, initial_state\<lparr>trace := [Print (Str usage_text)]\<rparr>) \<and>
   (\<exists>pre post. usage_text = pre @ ''Usage: '' @ post)"
proof
  assume "length argv < 3"
  then show "main e argv = Inr (0, initial_state\<lparr>trace := [Print (Str usage_text)]\<rparr>)"
    by (rule main_usage)
next
  have "usage_text = newline @ ''Usage: '' @
     (''fuxx <memUsageMiB> <diskUsageMiB> [<timeFactor>] '' @ newline @
      ''       where <memUsage> and <diskUsage> are in Mebibytes'' @ newline @
      ''       and timeFactor is in percent of the normal runtime.'' @ newline @ newline)"
    by (simp add: usage_text_def)
  then show "\<exists>pre post. usage_text = pre @ ''Usage: '' @ post" by blast
qed

theorem C7_usage_exit_witness:
  "length [''fuxx'', ''64''] < 3 \<and>
   main (example_env 0) [''fuxx'', ''64''] =
     Inr (0, initial_state\<lparr>trace := [Print (Str usage_text)]\<rparr>) \<and>
   (\<exists>pre post. usage_text = pre @ ''Usage: '' @ post)"
  using C7_usage_exit [of "[''fuxx'', ''64'']" "example_env 0"] by simp

text \<open>
  C8.  Two runs in the same environment whose argument vectors differ only in the second
  argument, both second arguments being accepted by \<open>std::stoul\<close>.  If one run ends
  with an error, the other ends with the same error.  If one returns, the other returns
  the same exit status, and the final states agree on \<open>memUsage\<close>, \<open>timeFactor\<close>,
  \<open>dummy\<close> and the number of clock readings; the effects that are not output
  (allocations, clock readings, every load and store of the timed loops, in order) are
  the same; and the two outputs are equal except for the number printed after
  \<open>Disk   usage in MiB: \<close>.
\<close>

theorem C8_diskUsage_unused:
  assumes "3 \<le> length argv" and "stoul (argv ! 2) = Inr d" and "stoul a = Inr d'"
  shows "(\<forall>x. main e argv = Inl x \<longrightarrow> main e (argv[2 := a]) = Inl x) \<and>
     (\<forall>rc fin. main e argv = Inr (rc, fin) \<longrightarrow>
        (\<exists>fin'. main e (argv[2 := a]) = Inr (rc, fin') \<and>
           memUsage fin' = memUsage fin \<and> timeFactor fin' = timeFactor fin \<and>
           dummy fin' = dummy fin \<and> ticks fin' = ticks fin \<and>
           filter (\<lambda>ev. \<not> is_Print ev) (trace fin') = filter (\<lambda>ev. \<not> is_Print ev) (trace fin) \<and>
           (\<exists>pre x x' post.
              trace fin = pre @ Print (Str ''Disk   usage in MiB: '') # Print (Num x) # post \<and>
              trace fin' = pre @ Print (Str ''Disk   usage in MiB: '') # Print (Num x') # post)))"
proof -
  let ?argv = "argv[2 := a]"
  have len: "length ?argv = length argv" by simp
  have l3: "3 \<le> length ?argv" using assms(1) by simp
  have a1: "?argv ! 1 = argv ! 1" by simp
  have a2: "stoul (?argv ! 2) = Inr d'" using assms(1, 3) by simp
  have a3: "?argv ! 3 = argv ! 3" by simp
  show ?thesis
  proof (cases "stoul (argv ! 1)")
    case (Inl x)
    then have "main e argv = Inl x" "main e ?argv = Inl x"
      using assms(1) l3 a1 by (simp_all add: configure_error1 main_configure_error)
    then show ?thesis by simp
  next
    case (Inr m)
    then have m': "stoul (?argv ! 1) = Inr m" using a1 by simp
    show ?thesis
    proof (cases "4 \<le> length argv")
      case False
      then have s: "length argv < 4" "length ?argv < 4" by simp_all
      show ?thesis
      proof (cases "unat (resolved_mem m * 1048576) \<le> avail e")
        case True
        note r = main_run3 [OF assms(1) s(1) Inr assms(2) True]
          main_run3 [OF l3 s(2) m' a2 True]
        show ?thesis
          unfolding r
          using disk_line_only [of m d' "run_events e (resolved_mem m * 1048576) 100" d]
          by (simp del: filter_append append_assoc)
      next
        case False
        have "configure argv initial_state = Inr (initial_state\<lparr>memUsage := resolved_mem m * 1048576,
            diskUsage := resolved_disk d * 1048576,
            trace := trace initial_state @ config_events m d\<rparr>)"
          using s(1) Inr assms(2) by (rule configure_run3)
        moreover have "configure ?argv initial_state = Inr (initial_state\<lparr>memUsage := resolved_mem m * 1048576,
            diskUsage := resolved_disk d' * 1048576,
            trace := trace initial_state @ config_events m d'\<rparr>)"
          using s(2) m' a2 by (rule configure_run3)
        ultimately have "main e argv = Inl Bad_Alloc" "main e ?argv = Inl Bad_Alloc"
          using False assms(1) l3 by (simp_all add: main_bad_alloc)
        then show ?thesis by simp
      qed
    next
      case True
      then have g: "4 \<le> length ?argv" by simp
      show ?thesis
      proof (cases "stoul (argv ! 3)")
        case (Inl x)
        then have "configure argv initial_state = Inl x" "configure ?argv initial_state = Inl x"
          using Inr m' assms(2) a2 a3 True g by (simp_all add: configure_error3)
        then have "main e argv = Inl x" "main e ?argv = Inl x"
          using assms(1) l3 by (simp_all add: main_configure_error)
        then show ?thesis by simp
      next
        case t: (Inr t)
        then have t': "stoul (?argv ! 3) = Inr t" using a3 by simp
        show ?thesis
        proof (cases "unat (resolved_mem m * 1048576) \<le> avail e")
          case a: True
          note r = main_run4 [OF True Inr assms(2) t a] main_run4 [OF g m' a2 t' a]
          show ?thesis
            unfolding r
            using disk_line_only [of m d'
                "tf_events t @ run_events e (resolved_mem m * 1048576) (resolved_tf t)" d]
            by (simp del: filter_append append_assoc)
        next
          case False
          have "configure argv initial_state = Inr (initial_state\<lparr>memUsage := resolved_mem m * 1048576,
              diskUsage := resolved_disk d * 1048576, timeFactor := resolved_tf t,
              trace := trace initial_state @ config_events m d @ tf_events t\<rparr>)"
            using True Inr assms(2) t by (rule configure_run4)
          moreover have "configure ?argv initial_state = Inr (initial_state\<lparr>memUsage := resolved_mem m * 1048576,
              diskUsage := resolved_disk d' * 1048576, timeFactor := resolved_tf t,
              trace := trace initial_state @ config_events m d' @ tf_events t\<rparr>)"
            using g m' a2 t' by (rule configure_run4)
          ultimately have "main e argv = Inl Bad_Alloc" "main e ?argv = Inl Bad_Alloc"
            using False assms(1) l3 by (simp_all add: main_bad_alloc)
          then show ?thesis by simp
        qed
      qed
    qed
  qed
qed

theorem C8_diskUsage_unused_witness:
  "3 \<le> length example_argv \<and> stoul (example_argv ! 2) = Inr 16 \<and> stoul ''32'' = Inr 32 \<and>
   main (example_env 67108864) example_argv = Inr (0, example_final) \<and>
   (\<exists>fin'. main (example_env 67108864) (example_argv[2 := ''32'']) = Inr (0, fin') \<and>
      memUsage fin' = memUsage example_final \<and> timeFactor fin' = timeFactor example_final \<and>
      dummy fin' = dummy example_final \<and> ticks fin' = ticks example_final \<and>
      filter (\<lambda>ev. \<not> is_Print ev) (trace fin') =
        filter (\<lambda>ev. \<not> is_Print ev) (trace example_final) \<and>
      (\<exists>pre x x' post.
         trace example_final =
           pre @ Print (Str ''Disk   usage in MiB: '') # Print (Num x) # post \<and>
         trace fin' = pre @ Print (Str ''Disk   usage in MiB: '') # Print (Num x') # post))"
proof -
  have a: "3 \<le> length example_argv" by (simp add: example_argv_def)
  have d: "stoul (example_argv ! 2) = Inr 16" using stoul_examples by (simp add: example_argv_def)
  have d': "stoul ''32'' = Inr 32"
    by (simp add: stoul_def isspace_def isdigit_def digits_value_def)
  show ?thesis
    using a d d' example_main C8_diskUsage_unused [OF a d d', of "example_env 67108864"]
    by blast
qed

text \<open>
  C9.  For \<open>memUsage \<ge> 1\<close> and a buffer of \<open>memUsage\<close> bytes:
  the wrap-around loop returns for every \<open>pos\<close>, with a result below \<open>memUsage\<close>;
  the initialisation loop returns (no write outside the buffer);
  both timed loops return, for every number of iterations, with \<open>pos < memUsage\<close>,
  and every offset they load from or store to is below \<open>memUsage\<close>;
  so neither benchmark ends with an access out of bounds or hangs.  This holds for every
  64-bit \<open>memUsage \<ge> 1\<close>, also where \<open>pos += 17 * 64\<close> wraps around.
\<close>

theorem C9_accesses_in_bounds:
  assumes "1 \<le> memUsage st" and "length p0 = unat (memUsage st)"
  shows "(\<forall>pos. \<exists>pos'. wrap (memUsage st) pos = Some pos' \<and> pos' < memUsage st) \<and>
     (\<exists>p. init_loop (memUsage st) p0 0 = Inr p \<and> length p = unat (memUsage st) \<and>
        (\<exists>pos st' evs. read_loop nrTries p 0 0 st = Inr (pos, st') \<and> pos < memUsage st \<and>
           trace st' = trace st @ evs \<and> length evs = unat nrTries \<and>
           (\<forall>ev \<in> set evs. \<exists>q. ev = Load q \<and> q < memUsage st)) \<and>
        (\<exists>p' pos st' evs. write_loop nrTries p 0 0 st = Inr (p', pos, st') \<and> pos < memUsage st \<and>
           length p' = unat (memUsage st) \<and>
           trace st' = trace st @ evs \<and> length evs = unat nrTries \<and>
           (\<forall>ev \<in> set evs. \<exists>q v. ev = Store q v \<and> q < memUsage st))) \<and>
     memoryLatencyRead e st \<noteq> Inl Out_Of_Bounds \<and> memoryLatencyRead e st \<noteq> Inl Never_Returns \<and>
     memoryLatencyWrite e st \<noteq> Inl Out_Of_Bounds \<and> memoryLatencyWrite e st \<noteq> Inl Never_Returns"
proof -
  let ?n = "memUsage st"
  have pos: "0 < ?n" using assms(1) by (simp add: one_le_word)
  have w: "\<forall>pos. \<exists>pos'. wrap ?n pos = Some pos' \<and> pos' < ?n"
    using pos by (simp add: wrap_mod word_mod_less_divisor)
  have i: "init_loop ?n p0 0 = Inr (pattern ?n)" using assms(2) by (rule init_loop_fresh)
  have r: "read_loop nrTries (pattern ?n) 0 0 st =
     Inr (cursor_from ?n 0 (unat nrTries),
          st\<lparr>dummy := dummy st + read_sum ?n (unat nrTries),
             trace := trace st @ loads ?n (unat nrTries)\<rparr>)"
    using pos by (intro read_loop_fresh) simp_all
  have wl: "write_loop nrTries (pattern ?n) 0 0 st =
     Inr (fold (\<lambda>j q. q[unat (cursor_from ?n 0 j) := ucast ((of_nat j :: size_t) mod 0xff)])
            [0..<unat nrTries] (pattern ?n),
          cursor_from ?n 0 (unat nrTries),
          st\<lparr>trace := trace st @ stores ?n (unat nrTries)\<rparr>)"
    using pos by (intro write_loop_fresh) (simp_all add: length_pattern)
  have c: "cursor_from ?n 0 (unat nrTries) < ?n" using pos by (intro cursor_from_less) simp_all
  have rd: "\<exists>pos st' evs. read_loop nrTries (pattern ?n) 0 0 st = Inr (pos, st') \<and> pos < ?n \<and>
           trace st' = trace st @ evs \<and> length evs = unat nrTries \<and>
           (\<forall>ev \<in> set evs. \<exists>q. ev = Load q \<and> q < ?n)"
    unfolding r using c loads_in_bounds [OF pos]
    by (intro exI [of _ "loads ?n (unat nrTries)"] exI conjI) (auto simp: length_loads)
  have wr: "\<exists>p' pos st' evs. write_loop nrTries (pattern ?n) 0 0 st = Inr (p', pos, st') \<and> pos < ?n \<and>
           length p' = unat ?n \<and>
           trace st' = trace st @ evs \<and> length evs = unat nrTries \<and>
           (\<forall>ev \<in> set evs. \<exists>q v. ev = Store q v \<and> q < ?n)"
    unfolding wl using c stores_in_bounds [OF pos]
    by (intro exI [of _ "stores ?n (unat nrTries)"] exI conjI)
       (auto simp: length_stores length_fold_update length_pattern)
  show ?thesis
    using w i rd wr memoryLatencyRead_safe [OF pos, of e] memoryLatencyWrite_safe [OF pos, of e]
    by (simp add: length_pattern)
qed

theorem C9_accesses_in_bounds_witness:
  "(1 :: size_t) \<le> memUsage (initial_state\<lparr>memUsage := 2000\<rparr>) \<and>
   length (replicate 2000 (0 :: uint8_t)) = unat (memUsage (initial_state\<lparr>memUsage := 2000\<rparr>)) \<and>
   (\<forall>pos. \<exists>pos'. wrap 2000 pos = Some pos' \<and> pos' < 2000) \<and>
   (\<exists>p. init_loop 2000 (replicate 2000 0) 0 = Inr p \<and> length p = 2000 \<and>
      (\<exists>pos st' evs. read_loop 3 p 0 0 (initial_state\<lparr>memUsage := 2000\<rparr>) = Inr (pos, st') \<and>
         pos < 2000 \<and> trace st' = evs \<and> length evs = 3 \<and>
         (\<forall>ev \<in> set evs. \<exists>q. ev = Load q \<and> q < 2000)) \<and>
      (\<exists>p' pos st' evs. write_loop 3 p 0 0 (initial_state\<lparr>memUsage := 2000\<rparr>) = Inr (p', pos, st') \<and>
         pos < 2000 \<and> length p' = 2000 \<and> trace st' = evs \<and> length evs = 3 \<and>
         (\<forall>ev \<in> set evs. \<exists>q v. ev = Store q v \<and> q < 2000))) \<and>
   memoryLatencyRead (example_env 0) (initial_state\<lparr>memUsage := 2000\<rparr>) \<noteq> Inl Out_Of_Bounds \<and>
   memoryLatencyWrite (example_env 0) (initial_state\<lparr>memUsage := 2000\<rparr>) \<noteq> Inl Never_Returns"
proof -
  let ?st = "initial_state\<lparr>memUsage := 2000\<rparr>"
  have a: "(1 :: size_t) \<le> memUsage ?st" by simp
  have b: "length (replicate 2000 (0 :: uint8_t)) = unat (memUsage ?st)" by simp
  have t: "trace ?st = []" by (simp add: initial_state_def)
  show ?thesis
    using a b C9_accesses_in_bounds [OF a b, of 3 "example_env 0"]
    by (simp add: t)
qed

text \<open>
  C10.  \<open>memoryLatencyWrite\<close> leaves the global \<open>dummy\<close> as it finds it.  So in a run
  of \<open>main\<close> with at least two arguments, \<open>dummy\<close> is 0 before the read benchmark, and
  the number printed after \<open>Please ignore: \<close> is the value of \<open>dummy\<close> when the read
  benchmark returns.
\<close>

theorem C10_write_keeps_dummy:
  "(memoryLatencyWrite e st = Inr st' \<longrightarrow> dummy st' = dummy st) \<and>
   (3 \<le> length argv \<and> main e argv = Inr (rc, fin) \<longrightarrow>
      (\<exists>st1 st2 st3. configure argv initial_state = Inr st1 \<and> dummy st1 = 0 \<and>
         memoryLatencyRead e st1 = Inr st2 \<and> memoryLatencyWrite e st2 = Inr st3 \<and>
         dummy st3 = dummy st2 \<and> dummy fin = dummy st2 \<and>
         trace fin = trace st3 @
           map Print [Str (newline @ ''Please ignore: ''), Num (dummy st2), Endl]))"
proof (intro conjI impI)
  assume "memoryLatencyWrite e st = Inr st'"
  then show "dummy st' = dummy st" by (rule memoryLatencyWrite_dummy)
next
  assume a: "3 \<le> length argv \<and> main e argv = Inr (rc, fin)"
  then obtain st1 st2 st3 where c: "configure argv initial_state = Inr st1"
    and r: "memoryLatencyRead e st1 = Inr st2" and w: "memoryLatencyWrite e st2 = Inr st3"
    and f: "fin = cout [Str (newline @ ''Please ignore: ''), Num (dummy st3), Endl] st3"
    by (blast elim: main_Inr)
  have d1: "dummy st1 = 0" using configure_dummy [OF c] by (simp add: initial_state_def)
  have d3: "dummy st3 = dummy st2" using w by (rule memoryLatencyWrite_dummy)
  show "\<exists>st1 st2 st3. configure argv initial_state = Inr st1 \<and> dummy st1 = 0 \<and>
         memoryLatencyRead e st1 = Inr st2 \<and> memoryLatencyWrite e st2 = Inr st3 \<and>
         dummy st3 = dummy st2 \<and> dummy fin = dummy st2 \<and>
         trace fin = trace st3 @
           map Print [Str (newline @ ''Please ignore: ''), Num (dummy st2), Endl]"
    using c r w d1 d3 f by (intro exI [of _ st1] exI [of _ st2] exI [of _ st3]) (simp add: cout_def)
qed

theorem C10_write_keeps_dummy_witness:
  "memoryLatencyWrite (example_env 67108864) (example_config\<lparr>dummy := 7\<rparr>) =
     Inr (example_config\<lparr>dummy := 7, ticks := 2,
            trace := trace example_config @ write_events (example_env 67108864) 67108864 10 0\<rparr>) \<and>
   dummy (example_config\<lparr>dummy := 7, ticks := 2,
            trace := trace example_config @ write_events (example_env 67108864) 67108864 10 0\<rparr>) =
     dummy (example_config\<lparr>dummy := 7\<rparr>) \<and>
   3 \<le> length example_argv \<and>
   main (example_env 67108864) example_argv = Inr (0, example_final) \<and>
   (\<exists>st1 st2 st3. configure example_argv initial_state = Inr st1 \<and> dummy st1 = 0 \<and>
      memoryLatencyRead (example_env 67108864) st1 = Inr st2 \<and>
      memoryLatencyWrite (example_env 67108864) st2 = Inr st3 \<and>
      dummy st3 = dummy st2 \<and> dummy example_final = dummy st2 \<and>
      trace example_final = trace st3 @
        map Print [Str (newline @ ''Please ignore: ''), Num (dummy st2), Endl])"
proof -
  let ?e = "example_env 67108864"
  let ?st = "example_config\<lparr>dummy := 7\<rparr>"
  let ?st' = "example_config\<lparr>dummy := 7, ticks := 2,
            trace := trace example_config @ write_events ?e 67108864 10 0\<rparr>"
  have w: "memoryLatencyWrite ?e ?st = Inr ?st'"
    using memoryLatencyWrite_run [of ?st ?e]
    by (simp add: example_config_def example_env_def initial_state_def)
  have a: "3 \<le> length example_argv" by (simp add: example_argv_def)
  show ?thesis
    using w a example_main
      C10_write_keeps_dummy [of ?e ?st ?st' example_argv 0 example_final]
    by blast
qed

end
